theory Spec2Isabelle
  imports Complex_Main
begin

section \<open>Data model of script.js\<close>

text \<open>
  A blessing is the object \<^verbatim>\<open>{ text: blessing, category }\<close> that \<^verbatim>\<open>loadAllBlessings\<close>
  pushes onto \<^verbatim>\<open>allBlessings\<close>. The field \<^verbatim>\<open>text\<close> is written \<open>text'\<close> here.
  Strings are lists of characters; the empty list is the one falsy string of JavaScript.
\<close>

record blessing =
  text' :: string
  category :: string

text \<open>
  The values that \<^verbatim>\<open>JSON.parse\<close> can produce. Numbers are integers (epoch milliseconds,
  page numbers, counters and array indices, all exact in double precision); an object is
  the list of its own properties, read with \<open>map_of\<close>.
\<close>

datatype json =
    JNull
  | JBool bool
  | JNum int
  | JStr string
  | JArr "json list"
  | JObj "(string \<times> json) list"

text \<open>
  What the item stored under \<^verbatim>\<open>storageKey\<close> is to the code, which only tests the text for
  truthiness and hands it to \<^verbatim>\<open>JSON.parse\<close>: the empty string, a non-empty text that
  \<^verbatim>\<open>JSON.parse\<close> rejects with a SyntaxError, or a text that it reads as a value (which is
  also what \<^verbatim>\<open>JSON.stringify\<close> of that value writes).
\<close>

datatype stored = Empty_text | Malformed | Wellformed json

text \<open>
  \<^verbatim>\<open>BlessingManager\<close> together with \<^verbatim>\<open>PageManager.clickCount\<close> and the item of
  \<^verbatim>\<open>localStorage\<close> under \<^verbatim>\<open>storageKey\<close> (\<open>None\<close>: no item, \<^verbatim>\<open>getItem\<close> returns null).
  \<open>displayedBlessings\<close> is the JavaScript \<^verbatim>\<open>Set\<close>, kept as the list of its elements in
  insertion order; its elements are texts (strings) and, from \<^verbatim>\<open>showSpecificBlessing\<close>,
  indices (numbers).
\<close>

record manager =
  displayedBlessings :: "json list"
  currentBlessing :: "blessing option"
  allBlessings :: "blessing list"
  loadedBlessings :: "blessing list"
  pageSize :: nat
  currentPage :: nat
  clickCount :: nat
  storage :: "stored option"

text \<open>
  What an operation reads from its surroundings: \<^verbatim>\<open>Date.now()\<close>, \<^verbatim>\<open>Math.random()\<close>
  (a number in the interval from 0 inclusive to 1 exclusive) and whether
  \<^verbatim>\<open>localStorage.setItem\<close> accepts the write (it throws otherwise, e.g. quota exceeded).
\<close>

record env =
  now :: int
  random :: rat
  quota_ok :: bool

section \<open>JavaScript values\<close>

fun truthy :: "json \<Rightarrow> bool" where
  "truthy JNull = False"
| "truthy (JBool b) = b"
| "truthy (JNum n) = (n \<noteq> 0)"
| "truthy (JStr s) = (s \<noteq> [])"
| "truthy (JArr xs) = True"
| "truthy (JObj fs) = True"

text \<open>\<^verbatim>\<open>typeof v === 'object'\<close>: true of null, arrays and objects.\<close>

fun typeof_object :: "json \<Rightarrow> bool" where
  "typeof_object JNull = True"
| "typeof_object (JArr xs) = True"
| "typeof_object (JObj fs) = True"
| "typeof_object v = False"

text \<open>
  \<^verbatim>\<open>progress.name\<close> for the four property names the code reads (none of them is a
  property of an array or of \<^verbatim>\<open>Object.prototype\<close>); \<open>None\<close> is \<^verbatim>\<open>undefined\<close>.
\<close>

fun get_prop :: "json \<Rightarrow> string \<Rightarrow> json option" where
  "get_prop (JObj fs) name = map_of fs name"
| "get_prop v name = None"

text \<open>\<^verbatim>\<open>a || b\<close> where \<open>a\<close> may be \<^verbatim>\<open>undefined\<close>.\<close>

fun or_else :: "json option \<Rightarrow> json \<Rightarrow> json" where
  "or_else None d = d"
| "or_else (Some v) d = (if truthy v then v else d)"

text \<open>
  The result of converting a value to a number: the conversion throws a TypeError, or
  yields NaN, or a number.
\<close>

datatype conv = Throws | NaN | Fin int

text \<open>
  \<^verbatim>\<open>ToNumber\<close>, applied by the subtraction \<^verbatim>\<open>Date.now() - progress.timestamp\<close>. On
  \<^verbatim>\<open>undefined\<close>, null, booleans and numbers the language fixes the result; on strings,
  arrays and objects it goes through the text of the value, and is the parameter
  \<open>coerce\<close>.
\<close>

fun ToNumber :: "(json \<Rightarrow> conv) \<Rightarrow> json option \<Rightarrow> conv" where
  "ToNumber coerce None = NaN"
| "ToNumber coerce (Some JNull) = Fin 0"
| "ToNumber coerce (Some (JBool b)) = Fin (if b then 1 else 0)"
| "ToNumber coerce (Some (JNum n)) = Fin n"
| "ToNumber coerce (Some v) = coerce v"

subsection \<open>The Set of displayed blessings\<close>

text \<open>
  Membership in a \<^verbatim>\<open>Set\<close> compares primitives by value and arrays and objects by
  reference; the arrays and objects of a parsed text are all different references.
\<close>

fun primitive :: "json \<Rightarrow> bool" where
  "primitive (JArr xs) = False"
| "primitive (JObj fs) = False"
| "primitive v = True"

definition Set_has :: "json list \<Rightarrow> json \<Rightarrow> bool" where
  "Set_has s v = (primitive v \<and> v \<in> set s)"

definition Set_add :: "json \<Rightarrow> json list \<Rightarrow> json list" where
  "Set_add v s = (if Set_has s v then s else s @ [v])"

text \<open>
  \<^verbatim>\<open>new Set(v)\<close>: an array gives its elements, a string its characters; a number, a
  boolean or a plain object is not iterable, and the constructor throws a TypeError
  (\<open>None\<close>).
\<close>

fun new_Set :: "json \<Rightarrow> json list option" where
  "new_Set (JArr xs) = Some (fold Set_add xs [])"
| "new_Set (JStr s) = Some (fold Set_add (map (\<lambda>c. JStr [c]) s) [])"
| "new_Set v = None"

section \<open>Pagination\<close>

text \<open>
  The loop of \<^verbatim>\<open>loadNextPage\<close>:
  \<^verbatim>\<open>for (let i = startIndex; i < endIndex; i++) this.loadedBlessings.push(this.allBlessings[i])\<close>.
  \<open>endIndex\<close> is at most the length of \<open>allBlessings\<close>, so every read is in range.
\<close>

function push_range :: "blessing list \<Rightarrow> nat \<Rightarrow> nat \<Rightarrow> blessing list \<Rightarrow> blessing list" where
  "push_range alls i endIndex loaded =
     (if i < endIndex then push_range alls (Suc i) endIndex (loaded @ [alls ! i]) else loaded)"
  by pat_completeness auto
termination
  by (relation "measure (\<lambda>(alls, i, endIndex, loaded). endIndex - i)") auto

definition loadNextPage :: "manager \<Rightarrow> manager" where
  "loadNextPage st =
     (let startIndex = currentPage st * pageSize st;
          endIndex = min (startIndex + pageSize st) (length (allBlessings st))
      in st\<lparr>loadedBlessings := push_range (allBlessings st) startIndex endIndex (loadedBlessings st),
            currentPage := currentPage st + 1\<rparr>)"

section \<open>Selection\<close>

text \<open>
  \<^verbatim>\<open>xs[Math.floor(Math.random() * xs.length)]\<close>; an index outside the array reads
  \<^verbatim>\<open>undefined\<close> (\<open>None\<close>). The product is exact here; its rounding in double
  precision can move a draw to the neighbouring index, never outside the array.
\<close>

definition pick_random :: "rat \<Rightarrow> 'a list \<Rightarrow> 'a option" where
  "pick_random u xs =
     (let randomIndex = \<lfloor>u * of_nat (length xs)\<rfloor>
      in if 0 \<le> randomIndex \<and> randomIndex < int (length xs) then Some (xs ! nat randomIndex) else None)"

text \<open>
  The loaded blessings whose text is not in \<open>displayedBlessings\<close>: the filter that
  \<^verbatim>\<open>getRandomUnDisplayedBlessing\<close> applies, before and after loading a page.
\<close>

definition unDisplayed :: "manager \<Rightarrow> blessing list" where
  "unDisplayed st =
     filter (\<lambda>blessing. \<not> Set_has (displayedBlessings st) (JStr (text' blessing))) (loadedBlessings st)"

text \<open>
  \<^verbatim>\<open>getRandomUnDisplayedBlessing\<close> returns a blessing or null (\<open>None\<close>), and may load a
  page on the way; the result is paired with the state it leaves. The function is total:
  its recursive call stands under conditions that exclude each other (no unseen blessing
  loaded and a page left, after the first test has failed), which is all the
  termination proof uses.
\<close>

function getRandomUnDisplayedBlessing :: "rat \<Rightarrow> manager \<Rightarrow> blessing option \<times> manager" where
  "getRandomUnDisplayedBlessing u st =
     (let loadedUnDisplayed = unDisplayed st in
      if length loadedUnDisplayed < 10 \<and> currentPage st * pageSize st < length (allBlessings st) then
        (let st1 = loadNextPage st;
             updatedUnDisplayed = unDisplayed st1
         in if length updatedUnDisplayed = 0 then (None, st1)
            else (pick_random u updatedUnDisplayed, st1))
      else if length loadedUnDisplayed = 0 then
        (if length (displayedBlessings st) \<ge> length (allBlessings st) then (None, st)
         else if currentPage st * pageSize st < length (allBlessings st) then
           getRandomUnDisplayedBlessing u (loadNextPage st)
         else (None, st))
      else (pick_random u loadedUnDisplayed, st))"
  by pat_completeness auto
termination
  by (relation "{}") auto

section \<open>Showing a blessing\<close>

text \<open>
  \<^verbatim>\<open>saveProgress\<close> writes the record
  \<^verbatim>\<open>{displayedBlessings, currentPage, clickCount, timestamp}\<close>; when \<^verbatim>\<open>setItem\<close> throws,
  the error is caught and only reported.
\<close>

definition saveProgress :: "env \<Rightarrow> manager \<Rightarrow> manager" where
  "saveProgress e st =
     (let progress = JObj
            [(''displayedBlessings'', JArr (displayedBlessings st)),
             (''currentPage'', JNum (int (currentPage st))),
             (''clickCount'', JNum (int (clickCount st))),
             (''timestamp'', JNum (now e))]
      in if quota_ok e then st\<lparr>storage := Some (Wellformed progress)\<rparr> else st)"

definition clearProgress :: "manager \<Rightarrow> manager" where
  "clearProgress st = st\<lparr>storage := None\<rparr>"

text \<open>
  \<^verbatim>\<open>showBlessing(specificBlessing = null)\<close>, on a page that has the elements the function
  looks up. A blessing whose text or category is empty makes it throw before anything
  is assigned; the handler shows a default text and leaves the state as it is.
\<close>

definition showBlessing :: "env \<Rightarrow> blessing option \<Rightarrow> manager \<Rightarrow> manager" where
  "showBlessing e specificBlessing st =
     (let (found, st1) = (case specificBlessing of
                            Some b \<Rightarrow> (Some b, st)
                          | None \<Rightarrow> getRandomUnDisplayedBlessing (random e) st)
      in case found of
           None \<Rightarrow> st1
         | Some blessing \<Rightarrow>
             if text' blessing = [] \<or> category blessing = [] then st1
             else saveProgress e
                    (st1\<lparr>currentBlessing := Some blessing,
                         displayedBlessings := Set_add (JStr (text' blessing)) (displayedBlessings st1),
                         clickCount := clickCount st1 + 1\<rparr>))"

text \<open>
  \<^verbatim>\<open>showSpecificBlessing(index)\<close>; an index outside \<open>allBlessings\<close> reads
  \<^verbatim>\<open>undefined\<close> and the function returns at once. \<open>e\<close> is the environment of the call
  of \<open>showBlessing\<close>, \<open>e'\<close> that of the \<open>saveProgress\<close> which follows.
\<close>

definition showSpecificBlessing :: "env \<Rightarrow> env \<Rightarrow> nat \<Rightarrow> manager \<Rightarrow> manager" where
  "showSpecificBlessing e e' index st =
     (if index < length (allBlessings st) then
        (let blessing = allBlessings st ! index;
             st1 = (if \<not> list_ex (\<lambda>b. text' b = text' blessing) (loadedBlessings st)
                    then st\<lparr>loadedBlessings := loadedBlessings st @ [blessing]\<rparr> else st);
             st2 = showBlessing e (Some blessing) st1;
             st3 = st2\<lparr>displayedBlessings := Set_add (JNum (int index)) (displayedBlessings st2)\<rparr>
         in saveProgress e' st3)
      else st)"

text \<open>\<^verbatim>\<open>reset\<close>; \<^verbatim>\<open>PageManager.resetClickCount\<close> sets the click count to 0.\<close>

definition reset :: "manager \<Rightarrow> manager" where
  "reset st =
     (let st1 = st\<lparr>displayedBlessings := [], currentBlessing := None\<rparr>;
          st2 = st1\<lparr>loadedBlessings := [], currentPage := 0\<rparr>;
          st3 = loadNextPage st2;
          st4 = clearProgress st3
      in st4\<lparr>clickCount := 0\<rparr>)"

section \<open>Loading the saved progress\<close>

text \<open>
  The state record holds the page cursor and the click count as natural numbers. A
  stored record that gives one of them a truthy value of another kind (JavaScript would
  keep that value in the field) is outside it, and \<open>loadProgress\<close> answers
  \<open>Untyped_field\<close>.
\<close>

datatype model_error = Untyped_field

fun as_count :: "json \<Rightarrow> nat option" where
  "as_count (JNum n) = (if 0 \<le> n then Some (nat n) else None)"
| "as_count v = None"

text \<open>
  \<^verbatim>\<open>localStorage\<close> itself is taken to be there: \<^verbatim>\<open>getItem\<close> and \<^verbatim>\<open>removeItem\<close> do
  not throw. The three assignments that restore the progress come after the age test. \<^verbatim>\<open>new Set\<close> comes first: when
  it throws, nothing has been assigned, and the handler clears the store.
\<close>

definition restore :: "json \<Rightarrow> manager \<Rightarrow> model_error + manager" where
  "restore progress st =
     (case new_Set (or_else (get_prop progress ''displayedBlessings'') (JArr [])) of
        None \<Rightarrow> Inr (clearProgress st)
      | Some s \<Rightarrow>
          (case (as_count (or_else (get_prop progress ''currentPage'') (JNum 0)),
                 as_count (or_else (get_prop progress ''clickCount'') (JNum 0))) of
             (Some p, Some c) \<Rightarrow>
               Inr (st\<lparr>displayedBlessings := s, currentPage := p, clickCount := c\<rparr>)
           | _ \<Rightarrow> Inl Untyped_field))"

definition loadProgress :: "(json \<Rightarrow> conv) \<Rightarrow> env \<Rightarrow> manager \<Rightarrow> model_error + manager" where
  "loadProgress coerce e st =
     (case storage st of
        None \<Rightarrow> Inr st
      | Some Empty_text \<Rightarrow> Inr st
      | Some Malformed \<Rightarrow> Inr (clearProgress st)
      | Some (Wellformed progress) \<Rightarrow>
          if \<not> truthy progress \<or> \<not> typeof_object progress then Inr (clearProgress st)
          else (case ToNumber coerce (get_prop progress ''timestamp'') of
                  Throws \<Rightarrow> Inr (clearProgress st)
                | NaN \<Rightarrow> restore progress st
                | Fin timestamp \<Rightarrow>
                    (let daysPassed = (of_int (now e - timestamp) :: rat) / (1000 * 60 * 60 * 24)
                     in if daysPassed > 7 then Inr (clearProgress st)
                        else restore progress st)))"

section \<open>Start-up\<close>

text \<open>
  The manager as the source declares it, once \<^verbatim>\<open>loadAllBlessings\<close> has filled
  \<open>allBlessings\<close> with the (shuffled) corpus: nothing displayed, nothing loaded, pages of
  50, page cursor 0.
\<close>

definition BlessingManager :: "blessing list \<Rightarrow> manager" where
  "BlessingManager corpus =
     \<lparr>displayedBlessings = [], currentBlessing = None, allBlessings = corpus,
      loadedBlessings = [], pageSize = 50, currentPage = 0, clickCount = 0, storage = None\<rparr>"

text \<open>
  \<^verbatim>\<open>init\<close> on a freshly loaded page, as far as it changes the state after
  \<^verbatim>\<open>loadAllBlessings\<close>: \<^verbatim>\<open>loadProgress\<close>, then \<^verbatim>\<open>loadNextPage\<close>. \<open>shuffled\<close> is
  \<open>allBlessings\<close> as \<^verbatim>\<open>loadAllBlessings\<close> leaves it (the database flattened and
  shuffled), \<open>store\<close> the item found in \<^verbatim>\<open>localStorage\<close>.
\<close>

definition init :: "(json \<Rightarrow> conv) \<Rightarrow> env \<Rightarrow> blessing list \<Rightarrow> stored option \<Rightarrow> model_error + manager" where
  "init coerce e shuffled store =
     (case loadProgress coerce e (BlessingManager shuffled\<lparr>storage := store\<rparr>) of
        Inl err \<Rightarrow> Inl err
      | Inr st \<Rightarrow> Inr (loadNextPage st))"

section \<open>Retrying the start-up\<close>

text \<open>
  \<^verbatim>\<open>retryOperation(operation, maxRetries, delay)\<close>. The \<open>k\<close>-th call of the operation
  either returns a value or throws (\<open>operation k\<close>), the probe after the \<open>k\<close>-th failure
  answers \<open>checkNetworkConnection k\<close>. The run is its result and the trace of what it did.
\<close>

datatype event = Invoked nat | Probed nat | Waited int

datatype ('a, 'e) outcome =
    Returned 'a
  | Returned_undefined
  | Threw 'e
  | Threw_network_unavailable

function retry_loop ::
  "(nat \<Rightarrow> 'e + 'a) \<Rightarrow> (nat \<Rightarrow> bool) \<Rightarrow> nat \<Rightarrow> int \<Rightarrow> nat \<Rightarrow> event list
     \<Rightarrow> ('a, 'e) outcome \<times> event list" where
  "retry_loop operation checkNetworkConnection maxRetries delay attempt trace =
     (if attempt \<le> maxRetries then
        (case operation attempt of
           Inr v \<Rightarrow> (Returned v, trace @ [Invoked attempt])
         | Inl error \<Rightarrow>
             if attempt = maxRetries then (Threw error, trace @ [Invoked attempt])
             else if \<not> checkNetworkConnection attempt then
               (Threw_network_unavailable, trace @ [Invoked attempt, Probed attempt])
             else retry_loop operation checkNetworkConnection maxRetries delay (attempt + 1)
                    (trace @ [Invoked attempt, Probed attempt, Waited (delay * int attempt)]))
      else (Returned_undefined, trace))"
  by pat_completeness auto
termination
  by (relation "measure (\<lambda>(operation, probe, maxRetries, delay, attempt, trace). Suc maxRetries - attempt)")
    auto

definition retryOperation ::
  "(nat \<Rightarrow> 'e + 'a) \<Rightarrow> (nat \<Rightarrow> bool) \<Rightarrow> nat \<Rightarrow> int \<Rightarrow> ('a, 'e) outcome \<times> event list" where
  "retryOperation operation checkNetworkConnection maxRetries delay =
     retry_loop operation checkNetworkConnection maxRetries delay 1 []"

text \<open>What a trace shows: how often the operation was called, and the delays waited.\<close>

fun is_Invoked :: "event \<Rightarrow> bool" where
  "is_Invoked (Invoked k) = True"
| "is_Invoked ev = False"

definition invocations :: "event list \<Rightarrow> nat" where
  "invocations trace = length (filter is_Invoked trace)"

fun waits :: "event list \<Rightarrow> int list" where
  "waits [] = []"
| "waits (Waited ms # trace) = ms # waits trace"
| "waits (ev # trace) = waits trace"

section \<open>Sample data\<close>

text \<open>\<open>corpus n\<close> is a corpus of \<open>n\<close> blessings with the distinct texts \<open>*\<close>, \<open>**\<close>, ...\<close>

definition item :: "string \<Rightarrow> string \<Rightarrow> blessing" where
  "item t c = \<lparr>text' = t, category = c\<rparr>"

definition corpus :: "nat \<Rightarrow> blessing list" where
  "corpus n = map (\<lambda>i. item (replicate (Suc i) CHR ''*'') ''c'') [0..<n]"

definition sample_env :: env where
  "sample_env = \<lparr>now = 1700000000000, random = 0, quota_ok = True\<rparr>"

definition two_blessings :: "blessing list" where
  "two_blessings = [item ''A'' ''x'', item ''B'' ''y'']"

text \<open>A first visit: \<^verbatim>\<open>init\<close> with nothing stored, then one click.\<close>

definition first_visit :: manager where
  "first_visit = showBlessing sample_env None (loadNextPage (BlessingManager two_blessings))"

text \<open>The state in which \<^verbatim>\<open>init\<close> leaves the next visit, one minute later.\<close>

definition second_visit :: manager where
  "second_visit =
     BlessingManager two_blessings
       \<lparr>displayedBlessings := [JStr ''A''], currentPage := 2, clickCount := 1,
        storage := Some (Wellformed (JObj
            [(''displayedBlessings'', JArr [JStr ''A'']),
             (''currentPage'', JNum 1),
             (''clickCount'', JNum 1),
             (''timestamp'', JNum 1700000000000)]))\<rparr>"

text \<open>Corpora with two blessings of the same text, after \<^verbatim>\<open>init\<close> and one click.\<close>

definition twins :: manager where
  "twins = showBlessing sample_env None (loadNextPage (BlessingManager [item ''A'' ''x'', item ''A'' ''y'']))"

definition trio :: manager where
  "trio = showBlessing sample_env None
            (loadNextPage (BlessingManager [item ''A'' ''x'', item ''A'' ''y'', item ''B'' ''z'']))"

text \<open>
  Corpora of 51 blessings after \<^verbatim>\<open>init\<close>: the first page of 50 is loaded, the last
  blessing is not. In \<open>twin_beyond_window\<close> the last blessing has the text of the first,
  in \<open>blank_category\<close> it has an empty category.
\<close>

definition windowed :: manager where
  "windowed = loadNextPage (BlessingManager (corpus 51))"

definition twin_beyond_window :: manager where
  "twin_beyond_window = loadNextPage (BlessingManager (corpus 50 @ [item ''*'' ''d'']))"

definition blank_category :: manager where
  "blank_category = loadNextPage (BlessingManager (corpus 50 @ [item ''A'' '''']))"

text \<open>
  A corpus of 101 blessings after \<^verbatim>\<open>init\<close>, when the store held the texts of the first
  100 and no page cursor: the first page is loaded, and every text but the last is in
  \<open>displayedBlessings\<close>.
\<close>

definition texts_seen :: "nat \<Rightarrow> json list" where
  "texts_seen n = map (\<lambda>b. JStr (text' b)) (corpus n)"

definition seen_ahead :: manager where
  "seen_ahead =
     BlessingManager (corpus 101)
       \<lparr>displayedBlessings := texts_seen 100, loadedBlessings := corpus 50, currentPage := 1,
        storage := Some (Wellformed (JObj
            [(''displayedBlessings'', JArr (texts_seen 100)),
             (''timestamp'', JNum 1700000000000)]))\<rparr>"

text \<open>A stored record without its timestamp, and a visit that finds \<open>saved\<close> in the store.\<close>

definition progress_record :: "(string \<times> json) list" where
  "progress_record =
     [(''displayedBlessings'', JArr [JStr ''a'', JStr ''b'']),
      (''currentPage'', JNum 1),
      (''clickCount'', JNum 2)]"

definition revisit :: "stored \<Rightarrow> manager" where
  "revisit saved = BlessingManager two_blessings \<lparr>storage := Some saved\<rparr>"

section \<open>Facts about pagination and selection\<close>

declare getRandomUnDisplayedBlessing.simps [simp del]
declare push_range.simps [simp del]
declare retry_loop.simps [simp del]

lemmas sample_defs = BlessingManager_def two_blessings_def item_def sample_env_def

lemma push_range_eq:
  "endIndex \<le> length alls \<Longrightarrow>
   push_range alls i endIndex loaded = loaded @ take (endIndex - i) (drop i alls)"
proof (induction alls i endIndex loaded rule: push_range.induct)
  case (1 alls i endIndex loaded)
  show ?case
  proof (cases "i < endIndex")
    case True
    then have "i < length alls" using "1.prems" by simp
    then have "drop i alls = alls ! i # drop (Suc i) alls"
      by (simp add: Cons_nth_drop_Suc)
    moreover have "endIndex - i = Suc (endIndex - Suc i)" using True by simp
    ultimately have "take (endIndex - i) (drop i alls) = alls ! i # take (endIndex - Suc i) (drop (Suc i) alls)"
      by simp
    with True "1.IH" "1.prems" show ?thesis
      by (subst push_range.simps) simp
  next
    case False
    then show ?thesis by (subst push_range.simps) simp
  qed
qed

lemma loadNextPage_loaded:
  "loadedBlessings (loadNextPage st) =
     loadedBlessings st @ take (pageSize st) (drop (currentPage st * pageSize st) (allBlessings st))"
proof -
  let ?s = "currentPage st * pageSize st"
  let ?n = "length (allBlessings st)"
  have "take (min (?s + pageSize st) ?n - ?s) (drop ?s (allBlessings st)) =
        take (pageSize st) (drop ?s (allBlessings st))"
    by (cases "?s \<le> ?n") (simp_all add: min_def)
  then show ?thesis
    by (simp add: loadNextPage_def Let_def push_range_eq)
qed

lemma loadNextPage_fields [simp]:
  "currentPage (loadNextPage st) = currentPage st + 1"
  "displayedBlessings (loadNextPage st) = displayedBlessings st"
  "currentBlessing (loadNextPage st) = currentBlessing st"
  "allBlessings (loadNextPage st) = allBlessings st"
  "pageSize (loadNextPage st) = pageSize st"
  "clickCount (loadNextPage st) = clickCount st"
  "storage (loadNextPage st) = storage st"
  by (simp_all add: loadNextPage_def Let_def)

lemma loadNextPage_eq:
  "loadNextPage st =
     st\<lparr>loadedBlessings :=
           loadedBlessings st @ take (pageSize st) (drop (currentPage st * pageSize st) (allBlessings st)),
        currentPage := currentPage st + 1\<rparr>"
  using loadNextPage_loaded [of st] by (simp add: loadNextPage_def Let_def)

lemma getRandom_unfold:
  "getRandomUnDisplayedBlessing u st =
     (if length (unDisplayed st) < 10 \<and> currentPage st * pageSize st < length (allBlessings st) then
        (if unDisplayed (loadNextPage st) = [] then (None, loadNextPage st)
         else (pick_random u (unDisplayed (loadNextPage st)), loadNextPage st))
      else if unDisplayed st = [] then (None, st)
      else (pick_random u (unDisplayed st), st))"
  by (subst getRandomUnDisplayedBlessing.simps) (auto simp: Let_def)

lemma pick_random_in: "pick_random u xs = Some x \<Longrightarrow> x \<in> set xs"
proof -
  assume a: "pick_random u xs = Some x"
  let ?r = "\<lfloor>u * of_nat (length xs)\<rfloor>"
  from a have r: "0 \<le> ?r" "?r < int (length xs)" and x: "x = xs ! nat ?r"
    by (auto simp: pick_random_def Let_def split: if_splits)
  from r have "nat ?r < length xs" by linarith
  with x show ?thesis by simp
qed

lemma pick_random_Some:
  assumes "0 \<le> u" "u < 1" "xs \<noteq> []"
  shows "\<exists>x. pick_random u xs = Some x"
proof -
  let ?n = "length xs"
  have n: "0 < ?n" using assms(3) by simp
  have "0 \<le> u * of_nat ?n" using assms(1) by simp
  then have lo: "0 \<le> \<lfloor>u * of_nat ?n\<rfloor>" by simp
  have "u * of_nat ?n < of_nat ?n" using assms(2) n by simp
  then have "\<lfloor>u * of_nat ?n\<rfloor> < int ?n"
    by (simp add: floor_less_iff)
  with lo show ?thesis by (simp add: pick_random_def Let_def)
qed

lemma pick_random_nth:
  assumes "i < length xs"
  shows "pick_random (of_nat i / of_nat (length xs)) xs = Some (xs ! i)"
proof -
  have "(of_nat i / of_nat (length xs) :: rat) * of_nat (length xs) = of_nat i"
    using assms by auto
  moreover have "xs \<noteq> []" using assms by auto
  ultimately show ?thesis using assms by (simp add: pick_random_def Let_def)
qed

lemma unit_fraction:
  assumes "i < n"
  shows "0 \<le> (of_nat i / of_nat n :: rat) \<and> (of_nat i / of_nat n :: rat) < 1"
  using assms by simp

lemma unDisplayed_subset: "set (unDisplayed st) \<subseteq> set (loadedBlessings st)"
  by (auto simp: unDisplayed_def)

lemma unDisplayed_unseen: "b \<in> set (unDisplayed st) \<Longrightarrow> \<not> Set_has (displayedBlessings st) (JStr (text' b))"
  by (auto simp: unDisplayed_def)

lemma unDisplayed_Nil_iff:
  "unDisplayed st = [] \<longleftrightarrow> (\<forall>b \<in> set (loadedBlessings st). Set_has (displayedBlessings st) (JStr (text' b)))"
  by (auto simp: unDisplayed_def filter_empty_conv)

lemma getRandom_result:
  assumes "getRandomUnDisplayedBlessing u st = (Some b, st')"
  shows "b \<in> set (loadedBlessings st') \<and> \<not> Set_has (displayedBlessings st) (JStr (text' b))
         \<and> displayedBlessings st' = displayedBlessings st"
  using assms unDisplayed_subset [of st] unDisplayed_subset [of "loadNextPage st"]
     unDisplayed_unseen [of b st] unDisplayed_unseen [of b "loadNextPage st"] 
  by (auto simp: getRandom_unfold split: if_splits dest!: pick_random_in)

lemma pick_random_0: "xs \<noteq> [] \<Longrightarrow> pick_random 0 xs = Some (xs ! 0)"
  by (simp add: pick_random_def)

lemma pick_random_reaches:
  assumes "b \<in> set xs"
  shows "\<exists>u. 0 \<le> u \<and> u < 1 \<and> pick_random u xs = Some b"
proof -
  from assms obtain i where i: "i < length xs" "xs ! i = b"
    by (auto simp: in_set_conv_nth)
  let ?u = "of_nat i / of_nat (length xs) :: rat"
  have "0 \<le> ?u \<and> ?u < 1" using i(1) by (rule unit_fraction)
  moreover have "pick_random ?u xs = Some b" using i pick_random_nth [of i xs] by simp
  ultimately show ?thesis by blast
qed

lemma Set_has_Set_add: "Set_has s v \<Longrightarrow> Set_has (Set_add w s) v"
  by (simp add: Set_has_def Set_add_def)

lemma Set_has_added: "primitive v \<Longrightarrow> Set_has (Set_add v s) v"
  by (simp add: Set_has_def Set_add_def)

lemma saveProgress_fields [simp]:
  "displayedBlessings (saveProgress e st) = displayedBlessings st"
  "currentBlessing (saveProgress e st) = currentBlessing st"
  "allBlessings (saveProgress e st) = allBlessings st"
  "loadedBlessings (saveProgress e st) = loadedBlessings st"
  "pageSize (saveProgress e st) = pageSize st"
  "currentPage (saveProgress e st) = currentPage st"
  "clickCount (saveProgress e st) = clickCount st"
  by (simp_all add: saveProgress_def Let_def)

lemma getRandom_state:
  "snd (getRandomUnDisplayedBlessing u st) = st \<or> snd (getRandomUnDisplayedBlessing u st) = loadNextPage st"
  by (simp add: getRandom_unfold)

lemma getRandom_displayed [simp]:
  "displayedBlessings (snd (getRandomUnDisplayedBlessing u st)) = displayedBlessings st"
  using getRandom_state [of u st] by auto

lemma showBlessing_specific:
  "showBlessing e (Some b) st =
     (if text' b = [] \<or> category b = [] then st
      else saveProgress e
             (st\<lparr>currentBlessing := Some b,
                 displayedBlessings := Set_add (JStr (text' b)) (displayedBlessings st),
                 clickCount := clickCount st + 1\<rparr>))"
  by (simp add: showBlessing_def)

lemma showBlessing_keeps_seen:
  "Set_has (displayedBlessings st) v \<Longrightarrow> Set_has (displayedBlessings (showBlessing e sb st)) v"
proof (cases sb)
  case (Some b)
  assume "Set_has (displayedBlessings st) v"
  with Some show ?thesis by (simp add: showBlessing_specific Set_has_Set_add)
next
  case None
  assume v: "Set_has (displayedBlessings st) v"
  obtain r st1 where g: "getRandomUnDisplayedBlessing (random e) st = (r, st1)"
    by (cases "getRandomUnDisplayedBlessing (random e) st")
  then have "displayedBlessings st1 = displayedBlessings st"
    using getRandom_displayed [of "random e" st] by simp
  with v None g show ?thesis
    by (cases r) (simp_all add: showBlessing_def Set_has_Set_add)
qed

lemma showSpecificBlessing_keeps_seen:
  "Set_has (displayedBlessings st) v \<Longrightarrow> Set_has (displayedBlessings (showSpecificBlessing e e' k st)) v"
  by (simp add: showSpecificBlessing_def Let_def Set_has_Set_add showBlessing_keeps_seen)

lemma getRandom_exhausted:
  assumes "\<forall>b \<in> set (loadedBlessings st). Set_has (displayedBlessings st) (JStr (text' b))"
    and "\<not> currentPage st * pageSize st < length (allBlessings st)"
  shows "getRandomUnDisplayedBlessing u st = (None, st)"
  using assms by (simp add: getRandom_unfold unDisplayed_Nil_iff)

lemma loadNextPage_funpow:
  "currentPage ((loadNextPage ^^ n) st) = currentPage st + n
   \<and> allBlessings ((loadNextPage ^^ n) st) = allBlessings st
   \<and> pageSize ((loadNextPage ^^ n) st) = pageSize st
   \<and> loadedBlessings ((loadNextPage ^^ n) st) =
       loadedBlessings st @ take (n * pageSize st) (drop (currentPage st * pageSize st) (allBlessings st))"
proof (induction n)
  case 0
  show ?case by simp
next
  case (Suc n)
  let ?p = "pageSize st" and ?c = "currentPage st" and ?a = "allBlessings st"
  have "take (n * ?p + ?p) (drop (?c * ?p) ?a)
        = take (n * ?p) (drop (?c * ?p) ?a) @ take ?p (drop (n * ?p) (drop (?c * ?p) ?a))"
    by (rule take_add)
  moreover have "drop (n * ?p) (drop (?c * ?p) ?a) = drop ((?c + n) * ?p) ?a"
    by (simp add: add_mult_distrib add.commute)
  moreover have "Suc n * ?p = n * ?p + ?p" by simp
  ultimately have "take (Suc n * ?p) (drop (?c * ?p) ?a)
        = take (n * ?p) (drop (?c * ?p) ?a) @ take ?p (drop ((?c + n) * ?p) ?a)"
    by (simp only:)
  with Suc show ?case
    by (simp only: funpow.simps o_apply loadNextPage_loaded loadNextPage_fields) simp
qed

lemma showSpecificBlessing_fields:
  "currentPage (showSpecificBlessing e e' k st) = currentPage st"
  "pageSize (showSpecificBlessing e e' k st) = pageSize st"
  "allBlessings (showSpecificBlessing e e' k st) = allBlessings st"
  by (simp_all add: showSpecificBlessing_def Let_def showBlessing_specific)

lemma unDisplayed_none_seen: "displayedBlessings st = [] \<Longrightarrow> unDisplayed st = loadedBlessings st"
  by (simp add: unDisplayed_def Set_has_def)

lemma reset_eq:
  "reset st =
     st\<lparr>displayedBlessings := [], currentBlessing := None,
        loadedBlessings := take (pageSize st) (allBlessings st),
        currentPage := 1, clickCount := 0, storage := None\<rparr>"
  by (simp add: reset_def Let_def loadNextPage_eq clearProgress_def)

lemma reset_pick:
  "getRandomUnDisplayedBlessing u (reset st) =
     (if pageSize st < 10 \<and> pageSize st < length (allBlessings st) then
        (if pageSize st = 0 then None else pick_random u (take (2 * pageSize st) (allBlessings st)),
         loadNextPage (reset st))
      else (if take (pageSize st) (allBlessings st) = [] then None
            else pick_random u (take (pageSize st) (allBlessings st)), reset st))"
proof -
  have u: "unDisplayed (reset st) = take (pageSize st) (allBlessings st)"
    by (simp add: unDisplayed_none_seen reset_eq)
  have l: "loadedBlessings (loadNextPage (reset st)) = take (2 * pageSize st) (allBlessings st)"
    by (simp add: loadNextPage_loaded reset_eq take_add mult_2)
  have u1: "unDisplayed (loadNextPage (reset st)) = take (2 * pageSize st) (allBlessings st)"
    using l by (simp add: unDisplayed_none_seen reset_eq)
  have c: "currentPage (reset st) * pageSize (reset st) = pageSize st"
      "allBlessings (reset st) = allBlessings st"
    by (simp_all add: reset_eq)
  show ?thesis
    unfolding getRandom_unfold [of u "reset st"] u u1 c
    by (auto simp: min_def)
qed

lemma reset_pick_in_window:
  assumes "fst (getRandomUnDisplayedBlessing u (reset st)) = Some b"
  shows "b \<in> set (if pageSize st < 10 \<and> pageSize st < length (allBlessings st)
                  then take (2 * pageSize st) (allBlessings st)
                  else take (pageSize st) (allBlessings st))"
  using assms by (auto simp: reset_pick split: if_splits dest: pick_random_in)

section \<open>Facts about the sample data\<close>

lemma corpus_length [simp]: "length (corpus n) = n"
  by (simp add: corpus_def)

lemma corpus_take: "m \<le> n \<Longrightarrow> take m (corpus n) = corpus m"
  by (simp add: corpus_def take_map)

lemma corpus_nth: "i < n \<Longrightarrow> corpus n ! i = item (replicate (Suc i) CHR ''*'') ''c''"
  by (simp add: corpus_def)

lemma corpus_member: "item (replicate (Suc i) CHR ''*'') ''c'' \<in> set (corpus n) \<longleftrightarrow> i < n"
proof
  assume "item (replicate (Suc i) CHR ''*'') ''c'' \<in> set (corpus n)"
  then obtain j where j: "j < n" "item (replicate (Suc j) CHR ''*'') ''c'' = item (replicate (Suc i) CHR ''*'') ''c''"
    by (auto simp: corpus_def)
  then have "replicate (Suc j) CHR ''*'' = replicate (Suc i) CHR ''*''"
    by (simp add: item_def)
  then have "length (replicate (Suc j) CHR ''*'') = length (replicate (Suc i) CHR ''*'')"
    by (rule arg_cong)
  with j(1) show "i < n" by simp
next
  assume "i < n"
  then show "item (replicate (Suc i) CHR ''*'') ''c'' \<in> set (corpus n)"
    by (auto simp: corpus_def)
qed

lemma corpus_category: "b \<in> set (corpus n) \<Longrightarrow> category b = ''c''"
  by (auto simp: corpus_def item_def)

lemma corpus_text: "b \<in> set (corpus n) \<Longrightarrow> \<exists>i<n. text' b = replicate (Suc i) CHR ''*''"
  by (auto simp: corpus_def item_def)

lemma corpus_first: "0 < n \<Longrightarrow> item ''*'' ''c'' \<in> set (corpus n)"
  using corpus_member [of 0 n] by simp

lemma corpus_snoc_nth: "(corpus n @ [b]) ! n = b"
  by (simp add: nth_append)

lemma first_page_beyond:
  "loadNextPage (BlessingManager (corpus 50 @ [b])) =
     BlessingManager (corpus 50 @ [b]) \<lparr>loadedBlessings := corpus 50, currentPage := 1\<rparr>"
  by (simp add: loadNextPage_eq BlessingManager_def)

lemma windowed_eq:
  "windowed = BlessingManager (corpus 51) \<lparr>loadedBlessings := corpus 50, currentPage := 1\<rparr>"
  by (simp add: windowed_def loadNextPage_eq BlessingManager_def corpus_take)

lemma first_visit_eq:
  "first_visit =
     BlessingManager two_blessings
       \<lparr>displayedBlessings := [JStr ''A''], currentBlessing := Some (item ''A'' ''x''),
        loadedBlessings := two_blessings, currentPage := 1, clickCount := 1,
        storage := Some (Wellformed (JObj
            [(''displayedBlessings'', JArr [JStr ''A'']),
             (''currentPage'', JNum 1),
             (''clickCount'', JNum 1),
             (''timestamp'', JNum 1700000000000)]))\<rparr>"
  by (simp add: first_visit_def showBlessing_def getRandom_unfold unDisplayed_def loadNextPage_eq
      sample_defs Set_has_def Set_add_def pick_random_0 saveProgress_def)

lemma second_visit_init:
  "init coerce (sample_env\<lparr>now := 1700000060000\<rparr>) two_blessings (storage first_visit) = Inr second_visit"
  by (simp add: first_visit_eq init_def loadProgress_def restore_def second_visit_def loadNextPage_eq
      sample_defs Set_has_def Set_add_def)

lemma twins_eq:
  "twins =
     BlessingManager [item ''A'' ''x'', item ''A'' ''y'']
       \<lparr>displayedBlessings := [JStr ''A''], currentBlessing := Some (item ''A'' ''x''),
        loadedBlessings := [item ''A'' ''x'', item ''A'' ''y''], currentPage := 1, clickCount := 1,
        storage := Some (Wellformed (JObj
            [(''displayedBlessings'', JArr [JStr ''A'']),
             (''currentPage'', JNum 1),
             (''clickCount'', JNum 1),
             (''timestamp'', JNum 1700000000000)]))\<rparr>"
  by (simp add: twins_def showBlessing_def getRandom_unfold unDisplayed_def loadNextPage_eq
      sample_defs Set_has_def Set_add_def pick_random_0 saveProgress_def)

section \<open>Facts about the stored progress\<close>

lemma expired_iff:
  "((of_int (t - timestamp) :: rat) / (1000 * 60 * 60 * 24) > 7) = (604800000 < t - timestamp)"
proof -
  have "((of_int (t - timestamp) :: rat) / 86400000 > 7) = (7 * 86400000 < (of_int (t - timestamp) :: rat))"
    by (simp add: less_divide_eq)
  also have "\<dots> = ((of_int 604800000 :: rat) < of_int (t - timestamp))" by simp
  also have "\<dots> = (604800000 < t - timestamp)" by (simp only: of_int_less_iff)
  finally show ?thesis by simp
qed

lemma loadProgress_object:
  "storage st = Some (Wellformed (JObj props)) \<Longrightarrow>
   loadProgress coerce e st =
     (case ToNumber coerce (map_of props ''timestamp'') of
        Throws \<Rightarrow> Inr (st\<lparr>storage := None\<rparr>)
      | NaN \<Rightarrow> restore (JObj props) st
      | Fin timestamp \<Rightarrow>
          if 604800000 < now e - timestamp then Inr (st\<lparr>storage := None\<rparr>)
          else restore (JObj props) st)"
  by (simp add: loadProgress_def clearProgress_def Let_def expired_iff del: of_int_diff split: conv.splits)

lemma fold_Set_add_set: "set (fold Set_add xs acc) = set acc \<union> set xs"
  by (induction xs arbitrary: acc) (auto simp: Set_add_def Set_has_def)

lemma fold_Set_add_distinct:
  "distinct (filter primitive (acc @ xs)) \<Longrightarrow> fold Set_add xs acc = acc @ xs"
proof (induction xs arbitrary: acc)
  case Nil
  show ?case by simp
next
  case (Cons x xs)
  have "\<not> Set_has acc x"
  proof (cases "primitive x")
    case True
    with Cons.prems have "x \<notin> set acc" by auto
    then show ?thesis by (simp add: Set_has_def)
  next
    case False
    then show ?thesis by (simp add: Set_has_def)
  qed
  then have "Set_add x acc = acc @ [x]" by (simp add: Set_add_def)
  moreover have "distinct (filter primitive ((acc @ [x]) @ xs))" using Cons.prems by simp
  ultimately show ?case using Cons.IH [of "acc @ [x]"] by simp
qed

lemma restore_typed:
  assumes "map_of props ''displayedBlessings'' = Some (JArr seen)"
    and "as_count (or_else (map_of props ''currentPage'') (JNum 0)) = Some p"
    and "as_count (or_else (map_of props ''clickCount'') (JNum 0)) = Some c"
  shows "restore (JObj props) st =
           Inr (st\<lparr>displayedBlessings := fold Set_add seen [], currentPage := p, clickCount := c\<rparr>)"
  using assms by (simp add: restore_def)

lemma as_count_saved: "as_count (or_else (Some (JNum (int n))) (JNum 0)) = Some n"
  by simp

section \<open>Facts about a corpus seen ahead of its window\<close>

lemma texts_seen_set: "Set_has (texts_seen n) (JStr (text' b)) \<longleftrightarrow> text' b \<in> text' ` set (corpus n)"
  by (auto simp: Set_has_def texts_seen_def)

lemma texts_seen_Set: "fold Set_add (texts_seen n) [] = texts_seen n"
proof -
  have "texts_seen n = map (\<lambda>i. JStr (replicate (Suc i) CHR ''*'')) [0..<n]"
    by (simp add: texts_seen_def corpus_def item_def)
  moreover have "distinct (map (\<lambda>i. JStr (replicate (Suc i) CHR ''*'')) [0..<n])"
    by (simp add: distinct_map inj_on_def)
  moreover have "filter primitive (map (\<lambda>i. JStr (replicate (Suc i) CHR ''*'')) [0..<n])
      = map (\<lambda>i. JStr (replicate (Suc i) CHR ''*'')) [0..<n]"
    by (simp add: filter_map comp_def)
  ultimately show ?thesis
    using fold_Set_add_distinct [of "[]" "texts_seen n"] by simp
qed

lemma seen_ahead_init:
  "init coerce sample_env (corpus 101)
     (Some (Wellformed (JObj
            [(''displayedBlessings'', JArr (texts_seen 100)),
             (''timestamp'', JNum 1700000000000)])))
   = Inr seen_ahead"
  by (simp add: init_def loadProgress_object restore_def texts_seen_Set sample_env_def)
     (simp add: loadNextPage_eq BlessingManager_def seen_ahead_def corpus_take)

lemma seen_ahead_next:
  "loadNextPage seen_ahead = seen_ahead \<lparr>loadedBlessings := corpus 100, currentPage := 2\<rparr>"
proof -
  have "corpus 50 @ take 50 (drop 50 (corpus 101)) = take (50 + 50) (corpus 101)"
    using take_add [of 50 50 "corpus 101"] by (simp add: corpus_take)
  then have "corpus 50 @ take 50 (drop 50 (corpus 101)) = corpus 100"
    by (simp add: corpus_take)
  then show ?thesis
    by (simp add: loadNextPage_eq seen_ahead_def BlessingManager_def)
qed

lemma corpus_mono: "m \<le> n \<Longrightarrow> set (corpus m) \<subseteq> set (corpus n)"
  using set_take_subset [of m "corpus n"] by (simp add: corpus_take)

lemma seen_ahead_pick:
  "getRandomUnDisplayedBlessing u seen_ahead =
     (None, seen_ahead \<lparr>loadedBlessings := corpus 100, currentPage := 2\<rparr>)"
proof -
  have "unDisplayed (loadNextPage seen_ahead) = []"
    unfolding unDisplayed_Nil_iff
    by (simp add: seen_ahead_next) (simp add: seen_ahead_def BlessingManager_def texts_seen_set)
  moreover have "unDisplayed seen_ahead = []"
    unfolding unDisplayed_Nil_iff
    using corpus_mono [of 50 100]
    by (auto simp: seen_ahead_def BlessingManager_def texts_seen_set)
  moreover have "currentPage seen_ahead * pageSize seen_ahead < length (allBlessings seen_ahead)"
    by (simp add: seen_ahead_def BlessingManager_def)
  ultimately show ?thesis
    by (simp add: getRandom_unfold seen_ahead_next)
qed

lemma seen_ahead_unseen:
  "\<not> Set_has (displayedBlessings seen_ahead) (JStr (text' (corpus 101 ! 100)))"
proof
  assume "Set_has (displayedBlessings seen_ahead) (JStr (text' (corpus 101 ! 100)))"
  then have "text' (corpus 101 ! 100) \<in> text' ` set (corpus 100)"
    by (simp add: seen_ahead_def BlessingManager_def texts_seen_set)
  then obtain b where "b \<in> set (corpus 100)" "text' b = text' (corpus 101 ! 100)" by auto
  then obtain i where "i < 100" "replicate (Suc i) CHR ''*'' = text' (corpus 101 ! 100)"
    using corpus_text [of b 100] by auto
  then have "i < 100" "length (replicate (Suc i) CHR ''*'') = length (text' (corpus 101 ! 100))"
    by simp_all
  then show False by (simp add: corpus_nth item_def)
qed

section \<open>Facts about the retry loop\<close>

lemma retry_loop_last:
  "retry_loop operation probe 3 delay 3 trace =
     (case operation 3 of
        Inr v \<Rightarrow> (Returned v, trace @ [Invoked 3])
      | Inl e \<Rightarrow> (Threw e, trace @ [Invoked 3]))"
  by (subst retry_loop.simps) (simp split: sum.splits)

lemma retry_loop_second:
  "retry_loop operation probe 3 delay 2 trace =
     (case operation 2 of
        Inr v \<Rightarrow> (Returned v, trace @ [Invoked 2])
      | Inl e \<Rightarrow>
          if \<not> probe 2 then (Threw_network_unavailable, trace @ [Invoked 2, Probed 2])
          else retry_loop operation probe 3 delay 3 (trace @ [Invoked 2, Probed 2, Waited (delay * 2)]))"
  by (subst retry_loop.simps) (simp split: sum.splits)

lemma retry_loop_first:
  "retry_loop operation probe 3 delay 1 trace =
     (case operation 1 of
        Inr v \<Rightarrow> (Returned v, trace @ [Invoked 1])
      | Inl e \<Rightarrow>
          if \<not> probe 1 then (Threw_network_unavailable, trace @ [Invoked 1, Probed 1])
          else retry_loop operation probe 3 delay 2 (trace @ [Invoked 1, Probed 1, Waited (delay * 1)]))"
  by (subst retry_loop.simps) (simp del: One_nat_def split: sum.splits)

lemma retryOperation_3:
  "retryOperation operation probe 3 delay =
    (case operation 1 of
       Inr v \<Rightarrow> (Returned v, [Invoked 1])
     | Inl e1 \<Rightarrow>
        if \<not> probe 1 then (Threw_network_unavailable, [Invoked 1, Probed 1])
        else (case operation 2 of
           Inr v \<Rightarrow> (Returned v, [Invoked 1, Probed 1, Waited (delay * 1), Invoked 2])
         | Inl e2 \<Rightarrow>
            if \<not> probe 2 then
              (Threw_network_unavailable, [Invoked 1, Probed 1, Waited (delay * 1), Invoked 2, Probed 2])
            else (case operation 3 of
               Inr v \<Rightarrow>
                 (Returned v,
                  [Invoked 1, Probed 1, Waited (delay * 1), Invoked 2, Probed 2, Waited (delay * 2), Invoked 3])
             | Inl e3 \<Rightarrow>
                 (Threw e3,
                  [Invoked 1, Probed 1, Waited (delay * 1), Invoked 2, Probed 2, Waited (delay * 2), Invoked 3]))))"
  by (simp del: One_nat_def
      add: retryOperation_def retry_loop_first retry_loop_second retry_loop_last split: sum.splits)



lemma retry_bounds:
  fixes operation :: "nat \<Rightarrow> 'e + 'a"
  shows "invocations (snd (retryOperation operation probe 3 delay)) \<le> 3
   \<and> fst (retryOperation operation probe 3 delay) \<noteq> Returned_undefined
   \<and> waits (snd (retryOperation operation probe 3 delay)) =
       map (\<lambda>k. delay * int k) [1..<invocations (snd (retryOperation operation probe 3 delay))]"
  by (simp add: retryOperation_3 invocations_def upt_rec split: sum.splits)

section \<open>Claim C1: the selection of an unseen blessing\<close>

text \<open>
  Claim C1 says that \<open>getRandomUnDisplayedBlessing\<close> returns an unseen blessing whenever
  the corpus has one, and null only when every blessing has been seen; in particular
  that it keeps loading pages until it finds one. The code returns null with unseen
  blessings left, in two ways.

  With the corpus \<open>A, B\<close>: the first visit loads both and one click shows \<open>A\<close>; on the
  next visit \<open>init\<close> restores the page cursor 1 and then loads page 1, which is past the
  corpus, so nothing is loaded; the function finds no unseen blessing among the loaded
  ones, no page left by the cursor, and returns null, although \<open>B\<close> was never displayed.

  With a corpus of 101 blessings, the first page loaded and the texts of the first 100
  seen: the function loads the second page, finds no unseen blessing there either and
  returns null at once, although a third page with the unseen last blessing remains.
\<close>

theorem getRandomUnDisplayedBlessing_null_with_unseen:
  "init coerce sample_env two_blessings None = Inr (loadNextPage (BlessingManager two_blessings))
   \<and> first_visit = showBlessing sample_env None (loadNextPage (BlessingManager two_blessings))
   \<and> displayedBlessings first_visit = [JStr ''A'']
   \<and> init coerce (sample_env\<lparr>now := 1700000060000\<rparr>) two_blessings (storage first_visit)
       = Inr second_visit
   \<and> getRandomUnDisplayedBlessing u second_visit = (None, second_visit)
   \<and> allBlessings second_visit = [item ''A'' ''x'', item ''B'' ''y'']
   \<and> displayedBlessings second_visit = [JStr ''A'']
   \<and> loadedBlessings second_visit = []
   \<and> init coerce sample_env (corpus 101)
        (Some (Wellformed (JObj
            [(''displayedBlessings'', JArr (texts_seen 100)),
             (''timestamp'', JNum 1700000000000)])))
       = Inr seen_ahead
   \<and> getRandomUnDisplayedBlessing u seen_ahead =
       (None, seen_ahead \<lparr>loadedBlessings := corpus 100, currentPage := 2\<rparr>)
   \<and> allBlessings seen_ahead = corpus 101
   \<and> 2 * pageSize seen_ahead < length (allBlessings seen_ahead)
   \<and> \<not> Set_has (displayedBlessings seen_ahead) (JStr (text' (corpus 101 ! 100)))"
proof -
  have "init coerce sample_env two_blessings None = Inr (loadNextPage (BlessingManager two_blessings))"
    by (simp add: init_def loadProgress_def BlessingManager_def)
  moreover have "displayedBlessings first_visit = [JStr ''A'']"
    by (simp add: first_visit_eq)
  moreover have "getRandomUnDisplayedBlessing u second_visit = (None, second_visit)"
    by (simp add: getRandom_unfold unDisplayed_def second_visit_def sample_defs)
  moreover have "allBlessings second_visit = [item ''A'' ''x'', item ''B'' ''y'']"
    "displayedBlessings second_visit = [JStr ''A'']" "loadedBlessings second_visit = []"
    by (simp_all add: second_visit_def BlessingManager_def two_blessings_def)
  moreover have "allBlessings seen_ahead = corpus 101"
    "2 * pageSize seen_ahead < length (allBlessings seen_ahead)"
    by (simp_all add: seen_ahead_def BlessingManager_def)
  ultimately show ?thesis
    using second_visit_init [of coerce] seen_ahead_init [of coerce] seen_ahead_pick [of u]
      seen_ahead_unseen
    by (simp add: first_visit_def)
qed

section \<open>Claim C2: what the set of displayed blessings holds\<close>

text \<open>
  Claim C2 says that every element of \<open>displayedBlessings\<close> is the text of a blessing of
  the corpus. \<open>showSpecificBlessing\<close> adds the index as well: with the one-blessing
  corpus \<open>A\<close> loaded, selecting index 0 leaves the set with the two elements \<open>"A"\<close> and
  \<open>0\<close>, while the texts of the corpus are \<open>"A"\<close> alone.
\<close>

theorem showSpecificBlessing_adds_index:
  "displayedBlessings (showSpecificBlessing sample_env sample_env 0 (loadNextPage (BlessingManager [item ''A'' ''x''])))
     = [JStr ''A'', JNum 0]
   \<and> map (\<lambda>b. JStr (text' b))
        (allBlessings (showSpecificBlessing sample_env sample_env 0 (loadNextPage (BlessingManager [item ''A'' ''x'']))))
     = [JStr ''A'']"
  by (simp add: showSpecificBlessing_def showBlessing_def loadNextPage_eq saveProgress_def
      sample_defs Set_has_def Set_add_def Let_def)

section \<open>Claim C3: selecting a blessing by its index\<close>

text \<open>
  Claim C3, as the code has it. For an index inside the corpus whose blessing has a
  non-empty text and a non-empty category, and whose text no loaded blessing carries,
  \<open>showSpecificBlessing\<close> appends the blessing to \<open>loadedBlessings\<close>, makes it the
  current blessing and puts its text into \<open>displayedBlessings\<close>, so that
  \<open>getRandomUnDisplayedBlessing\<close> returns no blessing of that text afterwards; the page
  cursor is unchanged, and any number of later \<open>loadNextPage\<close> calls append the same
  blessings as they would have without the selection.
\<close>

theorem showSpecificBlessing_unloaded:
  assumes "index < length (allBlessings st)"
    and "text' (allBlessings st ! index) \<noteq> []"
    and "category (allBlessings st ! index) \<noteq> []"
    and "\<forall>b \<in> set (loadedBlessings st). text' b \<noteq> text' (allBlessings st ! index)"
  shows "loadedBlessings (showSpecificBlessing e e' index st) = loadedBlessings st @ [allBlessings st ! index]
    \<and> currentBlessing (showSpecificBlessing e e' index st) = Some (allBlessings st ! index)
    \<and> Set_has (displayedBlessings (showSpecificBlessing e e' index st)) (JStr (text' (allBlessings st ! index)))
    \<and> (\<forall>u r s. getRandomUnDisplayedBlessing u (showSpecificBlessing e e' index st) = (Some r, s) \<longrightarrow>
          text' r \<noteq> text' (allBlessings st ! index))
    \<and> currentPage (showSpecificBlessing e e' index st) = currentPage st
    \<and> (\<forall>n. currentPage ((loadNextPage ^^ n) (showSpecificBlessing e e' index st))
             = currentPage ((loadNextPage ^^ n) st)
          \<and> loadedBlessings ((loadNextPage ^^ n) (showSpecificBlessing e e' index st))
             = loadedBlessings (showSpecificBlessing e e' index st)
               @ take (n * pageSize st) (drop (currentPage st * pageSize st) (allBlessings st))
          \<and> loadedBlessings ((loadNextPage ^^ n) st)
             = loadedBlessings st
               @ take (n * pageSize st) (drop (currentPage st * pageSize st) (allBlessings st)))"
proof -
  let ?b = "allBlessings st ! index"
  let ?st' = "showSpecificBlessing e e' index st"
  have ex: "\<not> list_ex (\<lambda>b. text' b = text' ?b) (loadedBlessings st)"
    using assms(4) by (auto simp: list_ex_iff)
  have loaded: "loadedBlessings ?st' = loadedBlessings st @ [?b]"
    using assms(1-3) ex by (simp add: showSpecificBlessing_def Let_def showBlessing_specific)
  have cur: "currentBlessing ?st' = Some ?b"
    using assms(1-3) by (simp add: showSpecificBlessing_def Let_def showBlessing_specific)
  have seen: "Set_has (displayedBlessings ?st') (JStr (text' ?b))"
    using assms(1-3)
    by (simp add: showSpecificBlessing_def Let_def showBlessing_specific Set_has_Set_add Set_has_added)
  have pick: "\<forall>u r s. getRandomUnDisplayedBlessing u ?st' = (Some r, s) \<longrightarrow> text' r \<noteq> text' ?b"
  proof (intro allI impI)
    fix u r s
    assume "getRandomUnDisplayedBlessing u ?st' = (Some r, s)"
    then have "\<not> Set_has (displayedBlessings ?st') (JStr (text' r))"
      using getRandom_result [of u ?st' r s] by simp
    with seen show "text' r \<noteq> text' ?b" by auto
  qed
  have pages: "\<forall>n. currentPage ((loadNextPage ^^ n) ?st') = currentPage ((loadNextPage ^^ n) st)
          \<and> loadedBlessings ((loadNextPage ^^ n) ?st')
             = loadedBlessings ?st' @ take (n * pageSize st) (drop (currentPage st * pageSize st) (allBlessings st))
          \<and> loadedBlessings ((loadNextPage ^^ n) st)
             = loadedBlessings st @ take (n * pageSize st) (drop (currentPage st * pageSize st) (allBlessings st))"
    using loadNextPage_funpow [of _ ?st'] loadNextPage_funpow [of _ st]
    by (simp add: showSpecificBlessing_fields)
  from loaded cur seen pick pages show ?thesis
    by (simp add: showSpecificBlessing_fields)
qed

theorem showSpecificBlessing_unloaded_witness:
  "50 < length (allBlessings windowed)
   \<and> text' (allBlessings windowed ! 50) \<noteq> []
   \<and> category (allBlessings windowed ! 50) \<noteq> []
   \<and> list_all (\<lambda>b. text' b \<noteq> text' (allBlessings windowed ! 50)) (loadedBlessings windowed)
   \<and> loadedBlessings (showSpecificBlessing sample_env sample_env 50 windowed) = corpus 50 @ [corpus 51 ! 50]
   \<and> currentBlessing (showSpecificBlessing sample_env sample_env 50 windowed) = Some (corpus 51 ! 50)
   \<and> currentPage (showSpecificBlessing sample_env sample_env 50 windowed) = 1"
proof -
  have a: "allBlessings windowed = corpus 51" "loadedBlessings windowed = corpus 50"
      "currentPage windowed = 1"
    by (simp_all add: windowed_eq BlessingManager_def)
  have h1: "50 < length (allBlessings windowed)" by (simp add: a)
  have h2: "text' (allBlessings windowed ! 50) \<noteq> []" by (simp add: a corpus_nth item_def)
  have h3: "category (allBlessings windowed ! 50) \<noteq> []" by (simp add: a corpus_nth item_def)
  have h4: "\<forall>b \<in> set (loadedBlessings windowed). text' b \<noteq> text' (allBlessings windowed ! 50)"
  proof
    fix b
    assume "b \<in> set (loadedBlessings windowed)"
    then obtain i where "i < 50" "text' b = replicate (Suc i) CHR ''*''"
      using corpus_text [of b 50] by (auto simp: a)
    moreover have "text' (allBlessings windowed ! 50) = replicate (Suc 50) CHR ''*''"
      by (simp add: a corpus_nth item_def)
    ultimately have "length (text' b) \<noteq> length (text' (allBlessings windowed ! 50))" by simp
    then show "text' b \<noteq> text' (allBlessings windowed ! 50)" by auto
  qed
  from h4 have h4': "list_all (\<lambda>b. text' b \<noteq> text' (allBlessings windowed ! 50)) (loadedBlessings windowed)"
    by (simp add: list_all_iff)
  from showSpecificBlessing_unloaded [OF h1 h2 h3 h4, of sample_env sample_env] h1 h2 h3 h4'
  show ?thesis by (simp add: a)
qed

text \<open>
  The claim as stated fails twice. A blessing outside the window whose text a loaded
  blessing carries is not appended; and a blessing with an empty category is appended,
  but neither displayed nor marked as seen by its text.
\<close>

theorem showSpecificBlessing_guards_counterexample:
  "allBlessings twin_beyond_window ! 50 \<notin> set (loadedBlessings twin_beyond_window)
   \<and> allBlessings twin_beyond_window ! 50
       \<notin> set (loadedBlessings (showSpecificBlessing sample_env sample_env 50 twin_beyond_window))
   \<and> allBlessings blank_category ! 50 \<notin> set (loadedBlessings blank_category)
   \<and> currentBlessing (showSpecificBlessing sample_env sample_env 50 blank_category) = None
   \<and> \<not> Set_has (displayedBlessings (showSpecificBlessing sample_env sample_env 50 blank_category))
           (JStr (text' (allBlessings blank_category ! 50)))"
proof -
  have t: "allBlessings twin_beyond_window = corpus 50 @ [item ''*'' ''d'']"
      "loadedBlessings twin_beyond_window = corpus 50"
    by (simp_all add: twin_beyond_window_def first_page_beyond) (simp_all add: BlessingManager_def)
  have tn: "allBlessings twin_beyond_window ! 50 = item ''*'' ''d''"
    by (simp add: t corpus_snoc_nth)
  have t1: "item ''*'' ''d'' \<notin> set (corpus 50)"
    using corpus_category [of "item ''*'' ''d''" 50] by (auto simp: item_def)
  have "list_ex (\<lambda>b. text' b = text' (item ''*'' ''d'')) (corpus 50)"
    unfolding list_ex_iff using corpus_first [of 50]
    by (intro bexI [of _ "item ''*'' ''c''"]) (simp_all add: item_def)
  then have t2: "loadedBlessings (showSpecificBlessing sample_env sample_env 50 twin_beyond_window) = corpus 50"
    by (simp add: showSpecificBlessing_def Let_def t corpus_snoc_nth showBlessing_specific)
  have b: "allBlessings blank_category = corpus 50 @ [item ''A'' '''']"
      "loadedBlessings blank_category = corpus 50"
      "currentBlessing blank_category = None" "displayedBlessings blank_category = []"
    by (simp_all add: blank_category_def first_page_beyond) (simp_all add: BlessingManager_def)
  have bn: "allBlessings blank_category ! 50 = item ''A'' ''''"
    by (simp add: b corpus_snoc_nth)
  have b1: "item ''A'' '''' \<notin> set (corpus 50)"
    using corpus_category [of "item ''A'' ''''" 50] by (auto simp: item_def)
  have b2: "currentBlessing (showSpecificBlessing sample_env sample_env 50 blank_category) = None"
    by (simp add: showSpecificBlessing_def Let_def b corpus_snoc_nth showBlessing_specific item_def)
  have b3: "displayedBlessings (showSpecificBlessing sample_env sample_env 50 blank_category) = [JNum 50]"
    by (simp add: showSpecificBlessing_def Let_def b corpus_snoc_nth showBlessing_specific item_def
        Set_add_def Set_has_def)
  show ?thesis
    using t1 b1 by (simp add: t t2 b b2 b3 corpus_snoc_nth Set_has_def)
qed

section \<open>Claim C4: stored progress that is discarded\<close>

text \<open>
  Claim C4, as the code has it. A stored record whose timestamp is more than 7 days
  (604800000 ms) old, a non-empty text that is not JSON, and a stored null, boolean,
  number or string all leave the state as it was and remove the item from the store.
  With no item, or with the empty string stored, \<open>loadProgress\<close> changes nothing at
  all; a stored array is read as a record without fields: the defaults are assigned and
  the store is kept.
\<close>

theorem loadProgress_discards:
  "(storage st = Some (Wellformed (JObj props))
      \<and> map_of props ''timestamp'' = Some (JNum timestamp) \<and> 604800000 < now e - timestamp \<longrightarrow>
        loadProgress coerce e st = Inr (st\<lparr>storage := None\<rparr>))
   \<and> (storage st = Some Malformed \<longrightarrow> loadProgress coerce e st = Inr (st\<lparr>storage := None\<rparr>))
   \<and> (storage st = Some (Wellformed v) \<and> (v = JNull \<or> v = JBool b \<or> v = JNum n \<or> v = JStr s) \<longrightarrow>
        loadProgress coerce e st = Inr (st\<lparr>storage := None\<rparr>))
   \<and> (storage st = None \<or> storage st = Some Empty_text \<longrightarrow> loadProgress coerce e st = Inr st)
   \<and> (storage st = Some (Wellformed (JArr xs)) \<longrightarrow>
        loadProgress coerce e st = Inr (st\<lparr>displayedBlessings := [], currentPage := 0, clickCount := 0\<rparr>))"
proof (intro conjI impI)
  assume "storage st = Some (Wellformed (JObj props))
      \<and> map_of props ''timestamp'' = Some (JNum timestamp) \<and> 604800000 < now e - timestamp"
  then show "loadProgress coerce e st = Inr (st\<lparr>storage := None\<rparr>)"
    by (simp add: loadProgress_object)
next
  assume "storage st = Some Malformed"
  then show "loadProgress coerce e st = Inr (st\<lparr>storage := None\<rparr>)"
    by (simp add: loadProgress_def clearProgress_def)
next
  assume "storage st = Some (Wellformed v) \<and> (v = JNull \<or> v = JBool b \<or> v = JNum n \<or> v = JStr s)"
  then show "loadProgress coerce e st = Inr (st\<lparr>storage := None\<rparr>)"
    by (auto simp: loadProgress_def clearProgress_def)
next
  assume "storage st = None \<or> storage st = Some Empty_text"
  then show "loadProgress coerce e st = Inr st"
    by (auto simp: loadProgress_def)
next
  assume "storage st = Some (Wellformed (JArr xs))"
  then show "loadProgress coerce e st =
      Inr (st\<lparr>displayedBlessings := [], currentPage := 0, clickCount := 0\<rparr>)"
    by (simp add: loadProgress_def restore_def)
qed

theorem loadProgress_discards_witness:
  "storage (revisit (Wellformed (JObj (progress_record @ [(''timestamp'', JNum (now sample_env - 691200000))]))))
     = Some (Wellformed (JObj (progress_record @ [(''timestamp'', JNum (now sample_env - 691200000))])))
   \<and> map_of (progress_record @ [(''timestamp'', JNum (now sample_env - 691200000))]) ''timestamp''
     = Some (JNum (now sample_env - 691200000))
   \<and> 604800000 < now sample_env - (now sample_env - 691200000)
   \<and> loadProgress (\<lambda>v. NaN) sample_env
        (revisit (Wellformed (JObj (progress_record @ [(''timestamp'', JNum (now sample_env - 691200000))]))))
     = Inr (BlessingManager two_blessings)
   \<and> loadProgress (\<lambda>v. NaN) sample_env (revisit Malformed) = Inr (BlessingManager two_blessings)
   \<and> loadProgress (\<lambda>v. NaN) sample_env (revisit (Wellformed (JStr ''ab''))) = Inr (BlessingManager two_blessings)
   \<and> loadProgress (\<lambda>v. NaN) sample_env (revisit Empty_text) = Inr (revisit Empty_text)
   \<and> loadProgress (\<lambda>v. NaN) sample_env (first_visit \<lparr>storage := Some (Wellformed (JArr []))\<rparr>)
       = Inr (first_visit \<lparr>displayedBlessings := [], currentPage := 0, clickCount := 0,
                          storage := Some (Wellformed (JArr []))\<rparr>)"
  using loadProgress_discards
      [where st = "revisit (Wellformed (JObj (progress_record @ [(''timestamp'', JNum (now sample_env - 691200000))])))"
        and props = "progress_record @ [(''timestamp'', JNum (now sample_env - 691200000))]"
        and timestamp = "now sample_env - 691200000" and e = sample_env and coerce = "\<lambda>v. NaN"]
    loadProgress_discards [where st = "revisit Malformed" and e = sample_env and coerce = "\<lambda>v. NaN"]
    loadProgress_discards [where st = "revisit (Wellformed (JStr ''ab''))" and v = "JStr ''ab''" and s = "''ab''"
        and e = sample_env and coerce = "\<lambda>v. NaN"]
    loadProgress_discards [where st = "revisit Empty_text" and e = sample_env and coerce = "\<lambda>v. NaN"]
    loadProgress_discards [where st = "first_visit \<lparr>storage := Some (Wellformed (JArr []))\<rparr>"
        and xs = "[]" and e = sample_env and coerce = "\<lambda>v. NaN"]
  by (simp add: revisit_def progress_record_def BlessingManager_def sample_env_def)

text \<open>
  The claim as stated fails: the empty string is not JSON and an array is not a JSON
  object, and \<open>loadProgress\<close> leaves both in the store.
\<close>

theorem loadProgress_keeps_store_counterexample:
  "loadProgress (\<lambda>v. NaN) sample_env (revisit Empty_text) = Inr (revisit Empty_text)
   \<and> storage (revisit Empty_text) = Some Empty_text
   \<and> loadProgress (\<lambda>v. NaN) sample_env (revisit (Wellformed (JArr []))) = Inr (revisit (Wellformed (JArr [])))
   \<and> storage (revisit (Wellformed (JArr []))) = Some (Wellformed (JArr []))"
  by (simp add: loadProgress_def restore_def revisit_def BlessingManager_def)

section \<open>Claim C5: stored progress that is restored\<close>

text \<open>
  Claim C5. A stored record less than 7 days old whose \<open>displayedBlessings\<close> is
  \<open>["a", "b"]\<close> (its page cursor and click count absent or natural numbers) restores the
  set \<open>{"a", "b"}\<close>. More generally, after a \<open>saveProgress\<close> whose write was accepted,
  a \<open>loadProgress\<close> at most 7 days later restores the saved set of displayed
  blessings (element for element, in the same order, when it is a proper set), the saved
  page cursor and the saved click count.
\<close>

theorem loadProgress_roundtrip:
  "(storage st = Some (Wellformed (JObj props))
      \<and> map_of props ''timestamp'' = Some (JNum timestamp) \<and> now e - timestamp < 604800000
      \<and> map_of props ''displayedBlessings'' = Some (JArr [JStr a, JStr b])
      \<and> as_count (or_else (map_of props ''currentPage'') (JNum 0)) = Some p
      \<and> as_count (or_else (map_of props ''clickCount'') (JNum 0)) = Some c \<longrightarrow>
        (\<exists>st'. loadProgress coerce e st = Inr st' \<and> set (displayedBlessings st') = {JStr a, JStr b}
            \<and> currentPage st' = p \<and> clickCount st' = c \<and> storage st' = storage st))
   \<and> (quota_ok e \<and> now e' - now e \<le> 604800000 \<and> storage st2 = storage (saveProgress e st) \<longrightarrow>
        (\<exists>st'. loadProgress coerce e' st2 = Inr st'
            \<and> set (displayedBlessings st') = set (displayedBlessings st)
            \<and> (distinct (filter primitive (displayedBlessings st)) \<longrightarrow>
                 displayedBlessings st' = displayedBlessings st)
            \<and> currentPage st' = currentPage st \<and> clickCount st' = clickCount st
            \<and> storage st' = storage st2))"
proof (intro conjI impI)
  assume a: "storage st = Some (Wellformed (JObj props))
      \<and> map_of props ''timestamp'' = Some (JNum timestamp) \<and> now e - timestamp < 604800000
      \<and> map_of props ''displayedBlessings'' = Some (JArr [JStr a, JStr b])
      \<and> as_count (or_else (map_of props ''currentPage'') (JNum 0)) = Some p
      \<and> as_count (or_else (map_of props ''clickCount'') (JNum 0)) = Some c"
  then have "loadProgress coerce e st =
      Inr (st\<lparr>displayedBlessings := fold Set_add [JStr a, JStr b] [], currentPage := p, clickCount := c\<rparr>)"
    by (simp add: loadProgress_object restore_typed)
  moreover have "set (fold Set_add [JStr a, JStr b] []) = {JStr a, JStr b}"
    by (simp only: fold_Set_add_set) auto
  ultimately show "\<exists>st'. loadProgress coerce e st = Inr st' \<and> set (displayedBlessings st') = {JStr a, JStr b}
            \<and> currentPage st' = p \<and> clickCount st' = c \<and> storage st' = storage st"
    by simp
next
  assume a: "quota_ok e \<and> now e' - now e \<le> 604800000 \<and> storage st2 = storage (saveProgress e st)"
  let ?props = "[(''displayedBlessings'', JArr (displayedBlessings st)),
             (''currentPage'', JNum (int (currentPage st))),
             (''clickCount'', JNum (int (clickCount st))),
             (''timestamp'', JNum (now e))]"
  from a have s: "storage st2 = Some (Wellformed (JObj ?props))"
    by (simp add: saveProgress_def)
  have r: "restore (JObj ?props) st2 =
      Inr (st2\<lparr>displayedBlessings := fold Set_add (displayedBlessings st) [],
               currentPage := currentPage st, clickCount := clickCount st\<rparr>)"
    by (rule restore_typed) simp_all
  from a have "loadProgress coerce e' st2 =
      Inr (st2\<lparr>displayedBlessings := fold Set_add (displayedBlessings st) [],
               currentPage := currentPage st, clickCount := clickCount st\<rparr>)"
    by (simp add: loadProgress_object [OF s] r)
  moreover have "set (fold Set_add (displayedBlessings st) []) = set (displayedBlessings st)"
    by (simp add: fold_Set_add_set)
  moreover have "distinct (filter primitive (displayedBlessings st)) \<longrightarrow>
      fold Set_add (displayedBlessings st) [] = displayedBlessings st"
    using fold_Set_add_distinct [of "[]" "displayedBlessings st"] by simp
  ultimately show "\<exists>st'. loadProgress coerce e' st2 = Inr st'
            \<and> set (displayedBlessings st') = set (displayedBlessings st)
            \<and> (distinct (filter primitive (displayedBlessings st)) \<longrightarrow>
                 displayedBlessings st' = displayedBlessings st)
            \<and> currentPage st' = currentPage st \<and> clickCount st' = clickCount st
            \<and> storage st' = storage st2"
    by simp
qed

theorem loadProgress_roundtrip_witness:
  "map_of (progress_record @ [(''timestamp'', JNum (now sample_env - 3600000))]) ''timestamp''
     = Some (JNum (now sample_env - 3600000))
   \<and> now sample_env - (now sample_env - 3600000) < 604800000
   \<and> (\<exists>st'. loadProgress (\<lambda>v. NaN) sample_env
              (revisit (Wellformed (JObj (progress_record @ [(''timestamp'', JNum (now sample_env - 3600000))]))))
              = Inr st'
          \<and> set (displayedBlessings st') = {JStr ''a'', JStr ''b''}
          \<and> currentPage st' = 1 \<and> clickCount st' = 2)
   \<and> quota_ok sample_env
   \<and> now (sample_env\<lparr>now := now sample_env + 60000\<rparr>) - now sample_env \<le> 604800000
   \<and> displayedBlessings first_visit = [JStr ''A'']
   \<and> (\<exists>st'. loadProgress (\<lambda>v. NaN) (sample_env\<lparr>now := now sample_env + 60000\<rparr>)
              (BlessingManager two_blessings \<lparr>storage := storage (saveProgress sample_env first_visit)\<rparr>)
              = Inr st'
          \<and> displayedBlessings st' = [JStr ''A''] \<and> currentPage st' = 1 \<and> clickCount st' = 1)"
proof -
  let ?props = "progress_record @ [(''timestamp'', JNum (now sample_env - 3600000))]"
  have f: "displayedBlessings first_visit = [JStr ''A'']" "currentPage first_visit = 1"
      "clickCount first_visit = 1"
    by (simp_all add: first_visit_eq)
  from loadProgress_roundtrip
      [where st = "revisit (Wellformed (JObj ?props))" and props = ?props
         and timestamp = "now sample_env - 3600000" and e = sample_env and a = "''a''" and b = "''b''"
         and p = 1 and c = 2 and coerce = "\<lambda>v. NaN", THEN conjunct1]
  have 1: "\<exists>st'. loadProgress (\<lambda>v. NaN) sample_env (revisit (Wellformed (JObj ?props))) = Inr st'
          \<and> set (displayedBlessings st') = {JStr ''a'', JStr ''b''}
          \<and> currentPage st' = 1 \<and> clickCount st' = 2"
    by (auto simp: revisit_def progress_record_def sample_env_def)
  from loadProgress_roundtrip
      [where e = sample_env and e' = "sample_env\<lparr>now := now sample_env + 60000\<rparr>" and st = first_visit
         and ?st2.0 = "BlessingManager two_blessings \<lparr>storage := storage (saveProgress sample_env first_visit)\<rparr>"
         and coerce = "\<lambda>v. NaN", THEN conjunct2]
  have 2: "\<exists>st'. loadProgress (\<lambda>v. NaN) (sample_env\<lparr>now := now sample_env + 60000\<rparr>)
              (BlessingManager two_blessings \<lparr>storage := storage (saveProgress sample_env first_visit)\<rparr>)
              = Inr st'
          \<and> displayedBlessings st' = [JStr ''A''] \<and> currentPage st' = 1 \<and> clickCount st' = 1"
    by (auto simp: f sample_env_def)
  from 1 2 show ?thesis
    by (simp add: f progress_record_def sample_env_def)
qed

section \<open>Claim C6: reset\<close>

text \<open>
  Claim C6, as the code has it. \<open>reset\<close> empties \<open>displayedBlessings\<close>, reloads the
  first page (so the page cursor ends at 1), sets the click count to 0, clears the store
  and leaves \<open>allBlessings\<close> as it is. The next \<open>getRandomUnDisplayedBlessing\<close> can
  return every blessing of the window it works on, and no other: the first page, or the
  first two pages when a page has fewer than 10 blessings and the corpus is longer than
  one page.
\<close>

theorem reset_then_pick:
  "reset st =
     st\<lparr>displayedBlessings := [], currentBlessing := None,
        loadedBlessings := take (pageSize st) (allBlessings st),
        currentPage := 1, clickCount := 0, storage := None\<rparr>
   \<and> (\<forall>b \<in> set (if pageSize st < 10 \<and> pageSize st < length (allBlessings st)
                  then take (2 * pageSize st) (allBlessings st)
                  else take (pageSize st) (allBlessings st)).
        \<exists>u. 0 \<le> u \<and> u < 1 \<and> fst (getRandomUnDisplayedBlessing u (reset st)) = Some b)
   \<and> (\<forall>u b. fst (getRandomUnDisplayedBlessing u (reset st)) = Some b \<longrightarrow>
        b \<in> set (if pageSize st < 10 \<and> pageSize st < length (allBlessings st)
                  then take (2 * pageSize st) (allBlessings st)
                  else take (pageSize st) (allBlessings st)))"
proof (intro conjI ballI allI impI)
  show "reset st =
     st\<lparr>displayedBlessings := [], currentBlessing := None,
        loadedBlessings := take (pageSize st) (allBlessings st),
        currentPage := 1, clickCount := 0, storage := None\<rparr>"
    by (rule reset_eq)
next
  fix b
  assume b: "b \<in> set (if pageSize st < 10 \<and> pageSize st < length (allBlessings st)
                  then take (2 * pageSize st) (allBlessings st)
                  else take (pageSize st) (allBlessings st))"
  show "\<exists>u. 0 \<le> u \<and> u < 1 \<and> fst (getRandomUnDisplayedBlessing u (reset st)) = Some b"
  proof (cases "pageSize st < 10 \<and> pageSize st < length (allBlessings st)")
    case True
    with b have m: "b \<in> set (take (2 * pageSize st) (allBlessings st))" by simp
    then have "pageSize st \<noteq> 0" by (cases "pageSize st = 0") auto
    moreover obtain u where "0 \<le> u" "u < 1"
        "pick_random u (take (2 * pageSize st) (allBlessings st)) = Some b"
      using pick_random_reaches [OF m] by blast
    ultimately show ?thesis using True by (intro exI [of _ u]) (auto simp: reset_pick)
  next
    case False
    with b have m: "b \<in> set (take (pageSize st) (allBlessings st))" by simp
    then have "take (pageSize st) (allBlessings st) \<noteq> []"
      by (metis empty_iff empty_set)
    moreover obtain u where "0 \<le> u" "u < 1"
        "pick_random u (take (pageSize st) (allBlessings st)) = Some b"
      using pick_random_reaches [OF m] by blast
    ultimately show ?thesis using False by (intro exI [of _ u]) (auto simp: reset_pick)
  qed
next
  fix u b
  assume "fst (getRandomUnDisplayedBlessing u (reset st)) = Some b"
  then show "b \<in> set (if pageSize st < 10 \<and> pageSize st < length (allBlessings st)
                  then take (2 * pageSize st) (allBlessings st)
                  else take (pageSize st) (allBlessings st))"
    by (rule reset_pick_in_window)
qed

theorem reset_then_pick_witness:
  "item ''B'' ''y'' \<in> set (take (pageSize first_visit) (allBlessings first_visit))
   \<and> (\<exists>u. 0 \<le> u \<and> u < 1 \<and> fst (getRandomUnDisplayedBlessing u (reset first_visit)) = Some (item ''B'' ''y''))
   \<and> fst (getRandomUnDisplayedBlessing 0 (reset first_visit)) = Some (item ''A'' ''x'')
   \<and> item ''A'' ''x'' \<in> set (take (pageSize first_visit) (allBlessings first_visit))
   \<and> displayedBlessings first_visit = [JStr ''A'']
   \<and> displayedBlessings (reset first_visit) = []"
proof -
  have a: "pageSize first_visit = 50" "allBlessings first_visit = [item ''A'' ''x'', item ''B'' ''y'']"
    "displayedBlessings first_visit = [JStr ''A'']"
    by (simp_all add: first_visit_eq BlessingManager_def two_blessings_def)
  have p: "fst (getRandomUnDisplayedBlessing 0 (reset first_visit)) = Some (item ''A'' ''x'')"
    by (simp add: reset_pick a pick_random_0)
  have w: "(if pageSize first_visit < 10 \<and> pageSize first_visit < length (allBlessings first_visit)
            then take (2 * pageSize first_visit) (allBlessings first_visit)
            else take (pageSize first_visit) (allBlessings first_visit))
           = [item ''A'' ''x'', item ''B'' ''y'']"
    by (simp add: a)
  from reset_then_pick [of first_visit]
  have "\<forall>b \<in> set [item ''A'' ''x'', item ''B'' ''y''].
          \<exists>u. 0 \<le> u \<and> u < 1 \<and> fst (getRandomUnDisplayedBlessing u (reset first_visit)) = Some b"
    unfolding w by blast
  then have "\<exists>u. 0 \<le> u \<and> u < 1
      \<and> fst (getRandomUnDisplayedBlessing u (reset first_visit)) = Some (item ''B'' ''y'')"
    by simp
  with p show ?thesis by (simp add: a reset_eq)
qed

text \<open>
  The claim as stated fails: with a corpus of 51 blessings the last one is outside the
  first page of 50, and no random draw makes the first selection after \<open>reset\<close> return
  it.
\<close>

theorem reset_pick_misses_later_pages_counterexample:
  "corpus 51 ! 50 \<in> set (allBlessings (reset (BlessingManager (corpus 51))))
   \<and> \<not> (\<exists>u. fst (getRandomUnDisplayedBlessing u (reset (BlessingManager (corpus 51)))) = Some (corpus 51 ! 50))"
proof (intro conjI notI)
  show "corpus 51 ! 50 \<in> set (allBlessings (reset (BlessingManager (corpus 51))))"
    by (simp add: reset_eq BlessingManager_def)
next
  assume "\<exists>u. fst (getRandomUnDisplayedBlessing u (reset (BlessingManager (corpus 51)))) = Some (corpus 51 ! 50)"
  then obtain u where
    "fst (getRandomUnDisplayedBlessing u (reset (BlessingManager (corpus 51)))) = Some (corpus 51 ! 50)"
    by blast
  then have "corpus 51 ! 50 \<in> set (take 50 (corpus 51))"
    using reset_pick_in_window [of u "BlessingManager (corpus 51)" "corpus 51 ! 50"]
    by (simp add: BlessingManager_def)
  then have "item (replicate (Suc 50) CHR ''*'') ''c'' \<in> set (corpus 50)"
    by (simp add: corpus_take corpus_nth)
  then show False by (simp only: corpus_member)
qed

section \<open>Claim C7: loadNextPage\<close>

text \<open>
  Claim C7, as the code has it. \<open>loadNextPage\<close> appends the next \<open>pageSize\<close> blessings
  of \<open>allBlessings\<close> (fewer at the end of the corpus), in order, and adds one to the page
  cursor. A window that is the prefix of the corpus up to the cursor stays one, of length
  \<open>min (pageSize * currentPage) (length allBlessings)\<close>. Once the cursor is past the
  corpus the window no longer changes, but the cursor still advances.
\<close>

theorem loadNextPage_appends_page:
  "loadNextPage st =
     st\<lparr>loadedBlessings :=
           loadedBlessings st @ take (pageSize st) (drop (currentPage st * pageSize st) (allBlessings st)),
        currentPage := currentPage st + 1\<rparr>
   \<and> (loadedBlessings st = take (currentPage st * pageSize st) (allBlessings st) \<longrightarrow>
        loadedBlessings (loadNextPage st) =
          take (currentPage (loadNextPage st) * pageSize (loadNextPage st)) (allBlessings (loadNextPage st)))
   \<and> (length (allBlessings st) \<le> currentPage st * pageSize st \<longrightarrow>
        loadNextPage st = st\<lparr>currentPage := currentPage st + 1\<rparr>)"
proof (intro conjI impI)
  show "loadNextPage st =
     st\<lparr>loadedBlessings :=
           loadedBlessings st @ take (pageSize st) (drop (currentPage st * pageSize st) (allBlessings st)),
        currentPage := currentPage st + 1\<rparr>"
    by (rule loadNextPage_eq)
next
  assume "loadedBlessings st = take (currentPage st * pageSize st) (allBlessings st)"
  then have "loadedBlessings (loadNextPage st) =
      take (currentPage st * pageSize st) (allBlessings st)
      @ take (pageSize st) (drop (currentPage st * pageSize st) (allBlessings st))"
    by (simp add: loadNextPage_loaded)
  also have "\<dots> = take (currentPage st * pageSize st + pageSize st) (allBlessings st)"
    by (simp add: take_add)
  finally show "loadedBlessings (loadNextPage st) =
          take (currentPage (loadNextPage st) * pageSize (loadNextPage st)) (allBlessings (loadNextPage st))"
    by (simp add: add.commute)
next
  assume "length (allBlessings st) \<le> currentPage st * pageSize st"
  then show "loadNextPage st = st\<lparr>currentPage := currentPage st + 1\<rparr>"
    by (simp add: loadNextPage_eq)
qed

theorem loadNextPage_appends_page_witness:
  "loadedBlessings (BlessingManager [item ''A'' ''x'', item ''B'' ''y'', item ''C'' ''z''] \<lparr>pageSize := 2\<rparr>)
     = take (0 * 2) [item ''A'' ''x'', item ''B'' ''y'', item ''C'' ''z'']
   \<and> loadedBlessings (loadNextPage (BlessingManager [item ''A'' ''x'', item ''B'' ''y'', item ''C'' ''z''] \<lparr>pageSize := 2\<rparr>))
     = [item ''A'' ''x'', item ''B'' ''y'']
   \<and> length [item ''A'' ''x''] \<le> 1 * 50
   \<and> loadNextPage (BlessingManager [item ''A'' ''x''] \<lparr>loadedBlessings := [item ''A'' ''x''], currentPage := 1\<rparr>)
     = BlessingManager [item ''A'' ''x''] \<lparr>loadedBlessings := [item ''A'' ''x''], currentPage := 2\<rparr>"
  using loadNextPage_appends_page [of "BlessingManager [item ''A'' ''x'', item ''B'' ''y'', item ''C'' ''z''] \<lparr>pageSize := 2\<rparr>"]
    loadNextPage_appends_page [of "BlessingManager [item ''A'' ''x''] \<lparr>loadedBlessings := [item ''A'' ''x''], currentPage := 1\<rparr>"]
  by (simp add: BlessingManager_def)

text \<open>
  The claim as stated fails: with the one-blessing corpus loaded and the cursor at 1, a
  further \<open>loadNextPage\<close> changes the state (the cursor becomes 2); and after the first
  page of that corpus the window has 1 blessing, not \<open>pageSize * currentPage = 50\<close>.
\<close>

theorem loadNextPage_not_noop_counterexample:
  "loadNextPage (BlessingManager [item ''A'' ''x''] \<lparr>loadedBlessings := [item ''A'' ''x''], currentPage := 1\<rparr>)
     \<noteq> BlessingManager [item ''A'' ''x''] \<lparr>loadedBlessings := [item ''A'' ''x''], currentPage := 1\<rparr>
   \<and> length (loadedBlessings (loadNextPage (BlessingManager [item ''A'' ''x'']))) \<noteq>
       pageSize (loadNextPage (BlessingManager [item ''A'' ''x''])) * currentPage (loadNextPage (BlessingManager [item ''A'' ''x'']))"
  by (simp add: loadNextPage_eq BlessingManager_def)

section \<open>Claim C8: retryOperation\<close>

text \<open>
  Claim C8. With \<open>maxRetries = 3\<close>, \<open>retryOperation\<close> returns the result of the first
  call that succeeds; when the third call fails it throws that call's error; when the
  first or second call fails and the probe then reports offline, it throws the
  network-unavailable error without calling again; it waits \<open>delay * k\<close> between call
  \<open>k\<close> and call \<open>k + 1\<close>; and it calls the operation at most 3 times.
\<close>

theorem retryOperation_three_attempts:
  fixes operation :: "nat \<Rightarrow> 'e + 'a"
  shows
  "(operation 1 = Inr v \<longrightarrow>
      retryOperation operation probe 3 delay = (Returned v, [Invoked 1]))
   \<and> (operation 1 = Inl e1 \<and> \<not> probe 1 \<longrightarrow>
      retryOperation operation probe 3 delay = (Threw_network_unavailable, [Invoked 1, Probed 1]))
   \<and> (operation 1 = Inl e1 \<and> probe 1 \<and> operation 2 = Inr v \<longrightarrow>
      retryOperation operation probe 3 delay =
        (Returned v, [Invoked 1, Probed 1, Waited (delay * 1), Invoked 2]))
   \<and> (operation 1 = Inl e1 \<and> probe 1 \<and> operation 2 = Inl e2 \<and> \<not> probe 2 \<longrightarrow>
      retryOperation operation probe 3 delay =
        (Threw_network_unavailable, [Invoked 1, Probed 1, Waited (delay * 1), Invoked 2, Probed 2]))
   \<and> (operation 1 = Inl e1 \<and> probe 1 \<and> operation 2 = Inl e2 \<and> probe 2 \<and> operation 3 = Inr v \<longrightarrow>
      retryOperation operation probe 3 delay =
        (Returned v,
         [Invoked 1, Probed 1, Waited (delay * 1), Invoked 2, Probed 2, Waited (delay * 2), Invoked 3]))
   \<and> (operation 1 = Inl e1 \<and> probe 1 \<and> operation 2 = Inl e2 \<and> probe 2 \<and> operation 3 = Inl e3 \<longrightarrow>
      retryOperation operation probe 3 delay =
        (Threw e3,
         [Invoked 1, Probed 1, Waited (delay * 1), Invoked 2, Probed 2, Waited (delay * 2), Invoked 3]))
   \<and> invocations (snd (retryOperation operation probe 3 delay)) \<le> 3
   \<and> fst (retryOperation operation probe 3 delay) \<noteq> Returned_undefined
   \<and> waits (snd (retryOperation operation probe 3 delay)) =
       map (\<lambda>k. delay * int k) [1..<invocations (snd (retryOperation operation probe 3 delay))]"
  using retry_bounds [of operation probe delay]
  by (simp del: One_nat_def add: retryOperation_3)

theorem retryOperation_three_attempts_witness:
  "(\<lambda>k::nat. if k < 3 then Inl ''down'' else Inr ''up'') 1 = (Inl ''down'' :: string + string)
   \<and> (\<lambda>k::nat. if k < 3 then Inl ''down'' else Inr ''up'') 2 = (Inl ''down'' :: string + string)
   \<and> (\<lambda>k::nat. if k < 3 then Inl ''down'' else Inr ''up'') 3 = (Inr ''up'' :: string + string)
   \<and> retryOperation (\<lambda>k::nat. if k < 3 then Inl ''down'' else Inr ''up'') (\<lambda>k. True) 3 1000 =
        (Returned ''up'', [Invoked 1, Probed 1, Waited 1000, Invoked 2, Probed 2, Waited 2000, Invoked 3])
   \<and> retryOperation (\<lambda>k. (Inl ''down'' :: string + string)) (\<lambda>k. True) 3 1000 =
        (Threw ''down'', [Invoked 1, Probed 1, Waited 1000, Invoked 2, Probed 2, Waited 2000, Invoked 3])
   \<and> retryOperation (\<lambda>k. (Inl ''down'' :: string + string)) (\<lambda>k. k \<noteq> 2) 3 1000 =
        (Threw_network_unavailable, [Invoked 1, Probed 1, Waited 1000, Invoked 2, Probed 2])
   \<and> retryOperation (\<lambda>k. (Inl ''down'' :: string + string)) (\<lambda>k. False) 3 1000 =
        (Threw_network_unavailable, [Invoked 1, Probed 1])
   \<and> retryOperation (\<lambda>k::nat. if k < 2 then Inl ''down'' else Inr ''up'') (\<lambda>k. True) 3 1000 =
        (Returned ''up'', [Invoked 1, Probed 1, Waited 1000, Invoked 2])
   \<and> retryOperation (\<lambda>k. (Inr ''up'' :: string + string)) (\<lambda>k. True) 3 1000 =
        (Returned ''up'', [Invoked 1])"
  using retryOperation_three_attempts
     [where operation = "\<lambda>k::nat. if k < 3 then Inl ''down'' else Inr ''up''" and probe = "\<lambda>k. True"
        and delay = 1000 and v = "''up''" and ?e1.0 = "''down''" and ?e2.0 = "''down''" and ?e3.0 = "''down''"]
   retryOperation_three_attempts
     [where operation = "\<lambda>k. (Inl ''down'' :: string + string)" and probe = "\<lambda>k. True"
        and delay = 1000 and v = "''up''" and ?e1.0 = "''down''" and ?e2.0 = "''down''" and ?e3.0 = "''down''"]
   retryOperation_three_attempts
     [where operation = "\<lambda>k. (Inl ''down'' :: string + string)" and probe = "\<lambda>k. k \<noteq> 2"
        and delay = 1000 and v = "''up''" and ?e1.0 = "''down''" and ?e2.0 = "''down''" and ?e3.0 = "''down''"]
   retryOperation_three_attempts
     [where operation = "\<lambda>k. (Inl ''down'' :: string + string)" and probe = "\<lambda>k. False"
        and delay = 1000 and v = "''up''" and ?e1.0 = "''down''" and ?e2.0 = "''down''" and ?e3.0 = "''down''"]
   retryOperation_three_attempts
     [where operation = "\<lambda>k::nat. if k < 2 then Inl ''down'' else Inr ''up''" and probe = "\<lambda>k. True"
        and delay = 1000 and v = "''up''" and ?e1.0 = "''down''" and ?e2.0 = "''down''" and ?e3.0 = "''down''"]
   retryOperation_three_attempts
     [where operation = "\<lambda>k. (Inr ''up'' :: string + string)" and probe = "\<lambda>k. True"
        and delay = 1000 and v = "''up''" and ?e1.0 = "''down''" and ?e2.0 = "''down''" and ?e3.0 = "''down''"]
  by simp

section \<open>Claim C9: a stored record without a usable timestamp\<close>

text \<open>
  Claim C9, as the code has it. When the timestamp of a stored object is missing, or is
  a string, array or object that converts to NaN, the age test is false whatever the
  time, and \<open>loadProgress\<close> restores the saved set, page cursor and click count. A
  timestamp that is null or a boolean converts to 0 or 1, and the record is discarded
  as expired.
\<close>

theorem loadProgress_without_timestamp:
  "(storage st = Some (Wellformed (JObj props)) \<and> ToNumber coerce (map_of props ''timestamp'') = NaN
      \<and> map_of props ''displayedBlessings'' = Some (JArr seen)
      \<and> as_count (or_else (map_of props ''currentPage'') (JNum 0)) = Some p
      \<and> as_count (or_else (map_of props ''clickCount'') (JNum 0)) = Some c \<longrightarrow>
        loadProgress coerce e st =
          Inr (st\<lparr>displayedBlessings := fold Set_add seen [], currentPage := p, clickCount := c\<rparr>))
   \<and> (map_of props ''timestamp'' = None \<longrightarrow> ToNumber coerce (map_of props ''timestamp'') = NaN)
   \<and> (map_of props ''timestamp'' = Some v \<and> (v = JStr s \<or> v = JArr xs \<or> v = JObj fs) \<and> coerce v = NaN \<longrightarrow>
        ToNumber coerce (map_of props ''timestamp'') = NaN)
   \<and> (storage st = Some (Wellformed (JObj props))
        \<and> (map_of props ''timestamp'' = Some JNull \<or> map_of props ''timestamp'' = Some (JBool b))
        \<and> 604800001 < now e \<longrightarrow>
        loadProgress coerce e st = Inr (st\<lparr>storage := None\<rparr>))"
proof (intro conjI impI)
  assume "storage st = Some (Wellformed (JObj props)) \<and> ToNumber coerce (map_of props ''timestamp'') = NaN
      \<and> map_of props ''displayedBlessings'' = Some (JArr seen)
      \<and> as_count (or_else (map_of props ''currentPage'') (JNum 0)) = Some p
      \<and> as_count (or_else (map_of props ''clickCount'') (JNum 0)) = Some c"
  then show "loadProgress coerce e st =
          Inr (st\<lparr>displayedBlessings := fold Set_add seen [], currentPage := p, clickCount := c\<rparr>)"
    by (simp add: loadProgress_object restore_typed)
next
  assume "map_of props ''timestamp'' = None"
  then show "ToNumber coerce (map_of props ''timestamp'') = NaN" by simp
next
  assume "map_of props ''timestamp'' = Some v \<and> (v = JStr s \<or> v = JArr xs \<or> v = JObj fs) \<and> coerce v = NaN"
  then show "ToNumber coerce (map_of props ''timestamp'') = NaN" by auto
next
  assume "storage st = Some (Wellformed (JObj props))
        \<and> (map_of props ''timestamp'' = Some JNull \<or> map_of props ''timestamp'' = Some (JBool b))
        \<and> 604800001 < now e"
  then show "loadProgress coerce e st = Inr (st\<lparr>storage := None\<rparr>)"
    by (auto simp: loadProgress_object)
qed

theorem loadProgress_without_timestamp_witness:
  "ToNumber (\<lambda>v. NaN) (map_of progress_record ''timestamp'') = NaN
   \<and> map_of progress_record ''timestamp'' = None
   \<and> loadProgress (\<lambda>v. NaN) sample_env (revisit (Wellformed (JObj progress_record)))
       = Inr (revisit (Wellformed (JObj progress_record))
               \<lparr>displayedBlessings := [JStr ''a'', JStr ''b''], currentPage := 1, clickCount := 2\<rparr>)
   \<and> map_of (progress_record @ [(''timestamp'', JStr ''soon'')]) ''timestamp'' = Some (JStr ''soon'')
   \<and> ToNumber (\<lambda>v. NaN) (map_of (progress_record @ [(''timestamp'', JStr ''soon'')]) ''timestamp'') = NaN
   \<and> map_of (progress_record @ [(''timestamp'', JBool True)]) ''timestamp'' = Some (JBool True)
   \<and> 604800001 < now sample_env
   \<and> loadProgress (\<lambda>v. NaN) sample_env
        (revisit (Wellformed (JObj (progress_record @ [(''timestamp'', JBool True)]))))
       = Inr (BlessingManager two_blessings)"
  using loadProgress_without_timestamp
      [where st = "revisit (Wellformed (JObj progress_record))" and props = progress_record
         and coerce = "\<lambda>v. NaN" and seen = "[JStr ''a'', JStr ''b'']" and p = 1 and c = 2 and e = sample_env]
    loadProgress_without_timestamp
      [where props = "progress_record @ [(''timestamp'', JStr ''soon'')]" and v = "JStr ''soon''"
         and s = "''soon''" and coerce = "\<lambda>v. NaN"]
    loadProgress_without_timestamp
      [where st = "revisit (Wellformed (JObj (progress_record @ [(''timestamp'', JBool True)])))"
         and props = "progress_record @ [(''timestamp'', JBool True)]" and b = True
         and coerce = "\<lambda>v. NaN" and e = sample_env]
  by (simp add: revisit_def progress_record_def Set_add_def Set_has_def sample_env_def BlessingManager_def)

text \<open>
  The claim as stated fails for a timestamp that is not a number but converts to one:
  with \<open>null\<close> the record is discarded.
\<close>

theorem loadProgress_null_timestamp_counterexample:
  "map_of (progress_record @ [(''timestamp'', JNull)]) ''timestamp'' = Some JNull
   \<and> loadProgress (\<lambda>v. NaN) sample_env
        (revisit (Wellformed (JObj (progress_record @ [(''timestamp'', JNull)]))))
       = Inr (BlessingManager two_blessings)
   \<and> storage (BlessingManager two_blessings) = None
   \<and> displayedBlessings (BlessingManager two_blessings) = []"
  by (simp add: loadProgress_object revisit_def progress_record_def sample_env_def BlessingManager_def)

section \<open>Claim C10: blessings that share a text\<close>

text \<open>
  Claim C10. Once a text is in \<open>displayedBlessings\<close>, \<open>getRandomUnDisplayedBlessing\<close>
  returns no blessing of that text, so marking one of two blessings of equal text
  excludes both; \<open>showBlessing\<close> marks a blessing by its text, and the text stays in
  the set through \<open>showBlessing\<close>, \<open>showSpecificBlessing\<close> and \<open>loadNextPage\<close>.
  When every loaded blessing has a seen text and the cursor is past the corpus, the
  function returns null; in the state \<open>twins\<close> it does so with one element in the set
  and two blessings in the corpus.
\<close>

theorem same_text_excluded_together:
  "(Set_has (displayedBlessings st) (JStr (text' b1)) \<and> text' b2 = text' b1
      \<and> getRandomUnDisplayedBlessing u st = (Some r, st') \<longrightarrow> r \<noteq> b1 \<and> r \<noteq> b2)
   \<and> (text' b1 \<noteq> [] \<and> category b1 \<noteq> [] \<longrightarrow>
        Set_has (displayedBlessings (showBlessing e (Some b1) st)) (JStr (text' b1)))
   \<and> (Set_has (displayedBlessings st) v \<longrightarrow>
        Set_has (displayedBlessings (showBlessing e sb st)) v
        \<and> Set_has (displayedBlessings (showSpecificBlessing e e' k st)) v
        \<and> Set_has (displayedBlessings (loadNextPage st)) v)
   \<and> ((\<forall>b \<in> set (loadedBlessings st). Set_has (displayedBlessings st) (JStr (text' b)))
        \<and> \<not> currentPage st * pageSize st < length (allBlessings st) \<longrightarrow>
        getRandomUnDisplayedBlessing u st = (None, st))
   \<and> getRandomUnDisplayedBlessing u twins = (None, twins)
   \<and> length (displayedBlessings twins) < length (allBlessings twins)"
proof (intro conjI impI)
  assume a: "Set_has (displayedBlessings st) (JStr (text' b1)) \<and> text' b2 = text' b1
      \<and> getRandomUnDisplayedBlessing u st = (Some r, st')"
  then have "\<not> Set_has (displayedBlessings st) (JStr (text' r))"
    using getRandom_result [of u st r st'] by simp
  with a show "r \<noteq> b1" and "r \<noteq> b2" by auto
next
  assume "text' b1 \<noteq> [] \<and> category b1 \<noteq> []"
  then show "Set_has (displayedBlessings (showBlessing e (Some b1) st)) (JStr (text' b1))"
    by (simp add: showBlessing_specific Set_has_added)
next
  assume v: "Set_has (displayedBlessings st) v"
  then show "Set_has (displayedBlessings (showBlessing e sb st)) v"
    by (rule showBlessing_keeps_seen)
  from v show "Set_has (displayedBlessings (showSpecificBlessing e e' k st)) v"
    by (rule showSpecificBlessing_keeps_seen)
  from v show "Set_has (displayedBlessings (loadNextPage st)) v" by simp
next
  assume "(\<forall>b \<in> set (loadedBlessings st). Set_has (displayedBlessings st) (JStr (text' b)))
        \<and> \<not> currentPage st * pageSize st < length (allBlessings st)"
  then show "getRandomUnDisplayedBlessing u st = (None, st)"
    by (simp add: getRandom_exhausted)
next
  show "getRandomUnDisplayedBlessing u twins = (None, twins)"
    by (rule getRandom_exhausted) (simp_all add: twins_eq sample_defs Set_has_def)
next
  show "length (displayedBlessings twins) < length (allBlessings twins)"
    by (simp add: twins_eq sample_defs)
qed

theorem same_text_excluded_together_witness:
  "Set_has (displayedBlessings trio) (JStr (text' (item ''A'' ''x'')))
   \<and> text' (item ''A'' ''y'') = text' (item ''A'' ''x'')
   \<and> getRandomUnDisplayedBlessing 0 trio = (Some (item ''B'' ''z''), trio)
   \<and> item ''B'' ''z'' \<noteq> item ''A'' ''x'' \<and> item ''B'' ''z'' \<noteq> item ''A'' ''y''
   \<and> Set_has (displayedBlessings (showBlessing sample_env (Some (item ''A'' ''y'')) trio)) (JStr ''A'')
   \<and> list_all (\<lambda>b. Set_has (displayedBlessings twins) (JStr (text' b))) (loadedBlessings twins)
   \<and> \<not> currentPage twins * pageSize twins < length (allBlessings twins)
   \<and> getRandomUnDisplayedBlessing 0 twins = (None, twins)"
proof -
  have t: "trio =
     BlessingManager [item ''A'' ''x'', item ''A'' ''y'', item ''B'' ''z'']
       \<lparr>displayedBlessings := [JStr ''A''], currentBlessing := Some (item ''A'' ''x''),
        loadedBlessings := [item ''A'' ''x'', item ''A'' ''y'', item ''B'' ''z''],
        currentPage := 1, clickCount := 1,
        storage := Some (Wellformed (JObj
            [(''displayedBlessings'', JArr [JStr ''A'']),
             (''currentPage'', JNum 1),
             (''clickCount'', JNum 1),
             (''timestamp'', JNum 1700000000000)]))\<rparr>"
    by (simp add: trio_def showBlessing_def getRandom_unfold unDisplayed_def loadNextPage_eq
      sample_defs Set_has_def Set_add_def pick_random_0 saveProgress_def)
  have h1: "Set_has (displayedBlessings trio) (JStr (text' (item ''A'' ''x'')))"
    by (simp add: t sample_defs Set_has_def)
  have h2: "getRandomUnDisplayedBlessing 0 trio = (Some (item ''B'' ''z''), trio)"
    by (simp add: getRandom_unfold unDisplayed_def t sample_defs Set_has_def pick_random_0)
  have h3: "list_all (\<lambda>b. Set_has (displayedBlessings twins) (JStr (text' b))) (loadedBlessings twins)"
    "\<not> currentPage twins * pageSize twins < length (allBlessings twins)"
    by (simp_all add: twins_eq sample_defs Set_has_def)
  from same_text_excluded_together
    [where st = trio and ?b1.0 = "item ''A'' ''x''" and ?b2.0 = "item ''A'' ''y''" and u = 0
       and r = "item ''B'' ''z''" and st' = trio and e = sample_env and sb = "Some (item ''A'' ''y'')"
       and v = "JStr ''A''"]
    same_text_excluded_together [where st = twins and u = 0]
    h1 h2 h3
  show ?thesis by (simp add: item_def showBlessing_specific Set_has_Set_add)
qed

end
